theory Spec2Isabelle
  imports Complex_Main "HOL-Library.Word"
begin

text \<open>
  The encrypted vault of the Weaver client: the cipher, the profile cards and the hash of
  security answers of \<^verbatim>\<open>services/cryptoService\<close>, and the login, version gate and
  password recovery of \<^verbatim>\<open>App.tsx\<close>. Functions keep their names; an asynchronous
  function is the function of its result, a thrown exception is a value of the result,
  and a handler of a component takes the state and returns the new one. Logging, the
  text of the dialogs and the time a call takes are left out.
\<close>

section \<open>Bytes, strings and exceptions\<close>

text \<open>
  An \<^verbatim>\<open>ArrayBuffer\<close> / \<^verbatim>\<open>Uint8Array\<close> is a list of bytes. A JavaScript string is
  a list of code units; the model covers the strings whose code units are below 256
  (ASCII and Latin-1), one \<^typ>\<open>char\<close> per code unit. The "binary strings" that
  \<^verbatim>\<open>btoa\<close> and \<^verbatim>\<open>atob\<close> exchange are exactly of this kind.
\<close>

type_synonym byte = "8 word"
type_synonym ArrayBuffer = "byte list"

text \<open>
  A thrown exception is a value. The first constructors are the exceptions of the
  platform (\<^verbatim>\<open>crypto.subtle\<close>, \<^verbatim>\<open>atob\<close>, \<^verbatim>\<open>JSON.parse\<close>, a call with too many
  arguments); \<open>Error msg\<close> is \<^verbatim>\<open>new Error(msg)\<close>, thrown by the repository's own code.
\<close>

datatype js_error =
    OperationError
  | InvalidCharacterError
  | SyntaxError
  | DataError
  | RangeError
  | Error string

definition fromCharCode :: "byte \<Rightarrow> char" where
  "fromCharCode b = char_of (unat b)"

definition charCodeAt :: "char \<Rightarrow> byte" where
  "charCodeAt c = of_char c"

text \<open>\<^verbatim>\<open>buffer.slice(begin, end)\<close> for \<open>begin \<le> end\<close>; the range is clamped to the buffer.\<close>

definition slice_list :: "nat \<Rightarrow> nat \<Rightarrow> 'a list \<Rightarrow> 'a list" where
  "slice_list b e xs = take (e - b) (drop b xs)"

subsection \<open>\<^verbatim>\<open>String.prototype.trim\<close> and \<^verbatim>\<open>toLowerCase\<close>\<close>

text \<open>
  The white space and line terminators of ECMAScript below 256: TAB, LF, VT, FF, CR,
  SPACE and NO-BREAK SPACE. The upper-case letters below 256 are A-Z and the Latin-1
  letters 192-222 without the multiplication sign 215; each has its lower-case
  partner 32 places up.
\<close>

definition isWhiteSpace :: "char \<Rightarrow> bool" where
  "isWhiteSpace c =
     (let n = (of_char c :: nat) in (9 \<le> n \<and> n \<le> 13) \<or> n = 32 \<or> n = 160)"

definition trim :: "string \<Rightarrow> string" where
  "trim s = rev (dropWhile isWhiteSpace (rev (dropWhile isWhiteSpace s)))"

definition isUpperCase :: "char \<Rightarrow> bool" where
  "isUpperCase c =
     (let n = (of_char c :: nat)
      in (65 \<le> n \<and> n \<le> 90) \<or> (192 \<le> n \<and> n \<le> 222 \<and> n \<noteq> 215))"

definition toLowerCaseChar :: "char \<Rightarrow> char" where
  "toLowerCaseChar c = (if isUpperCase c then char_of ((of_char c :: nat) + 32) else c)"

definition toLowerCase :: "string \<Rightarrow> string" where
  "toLowerCase s = map toLowerCaseChar s"

section \<open>Data model (types.ts)\<close>

text \<open>A JSON value: stories, presets, universes and JSON Web Keys are carried as such.\<close>

datatype jval =
    JNull
  | JBool bool
  | JNum rat
  | JStr string
  | JArr "jval list"
  | JObj "(string \<times> jval) list"

text \<open>
  A settings category is a JavaScript object: a map from property names to values, where
  \<open>None\<close> is \<^verbatim>\<open>undefined\<close>. The object spread \<^verbatim>\<open>{...a, ...b}\<close> is \<open>a ++ b\<close>.
\<close>

type_synonym obj = "string \<rightharpoonup> jval"

record AppSettings =
  general :: obj
  account :: obj
  ai :: obj
  readerDefaults :: obj
  accessibility :: obj
  storage :: obj
  connection :: obj
  social :: obj
  privacy :: obj
  keybindings :: obj

text \<open>
  The \<^verbatim>\<open>.swe\<close> bundle. A file written by an older version may lack a list or the
  version (\<open>None\<close>): \<^verbatim>\<open>loadDataBundle\<close> and \<^verbatim>\<open>decryptAndLoad\<close> test for that.
\<close>

record SweFileBundle =
  bundle_stories :: "jval list option"
  bundle_presets :: "jval list option"
  bundle_settings :: AppSettings
  bundle_universes :: "jval list option"
  bundle_readerSettings :: "obj option"
  bundle_version :: "int option"

record ProfileCardData =
  userId :: string
  username :: string
  avatarUrl :: string
  status :: string

text \<open>\<^verbatim>\<open>Friend\<close> has the four fields of \<^verbatim>\<open>ProfileCardData\<close>.\<close>

type_synonym Friend = ProfileCardData

record SignedProfileCard =
  card_v :: string
  card_publicKey :: jval
  card_data :: string
  card_sig :: string

record SecurityQuestion =
  question :: string
  answerHash :: string

text \<open>
  The fields of \<^verbatim>\<open>AppSettings['account']\<close> that \<^verbatim>\<open>createProfileCard\<close> and
  \<^verbatim>\<open>PasswordRecovery\<close> read, with their declared types. \<^verbatim>\<open>securityQuestions\<close> may be
  undefined, the code guards against it.
\<close>

record AccountSettings =
  acc_userId :: string
  acc_username :: string
  acc_avatarUrl :: string
  acc_status :: string
  acc_privateKey :: jval
  acc_publicKey :: jval
  acc_passwordHint :: string
  acc_securityQuestions :: "SecurityQuestion list option"

record QuickAccessMeta =
  meta_username :: "jval option"
  meta_passkeyCredentialId :: "jval option"

section \<open>The platform\<close>

text \<open>
  What the browser supplies and the repository only calls: \<^verbatim>\<open>TextEncoder\<close>,
  \<^verbatim>\<open>TextDecoder\<close>, \<^verbatim>\<open>btoa\<close>/\<^verbatim>\<open>atob\<close>, \<^verbatim>\<open>JSON\<close> and \<^verbatim>\<open>crypto.subtle\<close>.
  They are parameters of every function below, \<open>'key\<close> being \<^verbatim>\<open>CryptoKey\<close>. A result of
  \<open>None\<close> is a thrown exception or a rejected promise. \<open>pbkdf2_hmac k salt n\<close> is the
  \<open>n\<close> iterations of HMAC-SHA-256 that PBKDF2 runs under the HMAC key block \<open>k\<close>, to an
  AES-GCM key of 256 bits. \<open>importKey_sign\<close> and \<open>importKey_verify\<close> are
  \<^verbatim>\<open>importKey('jwk', k, ECDSA P-256)\<close> for the usages \<^verbatim>\<open>sign\<close> and \<^verbatim>\<open>verify\<close>. ECDSA
  signing draws a nonce, so it consumes entropy. \<open>max_arguments\<close> is the number of
  arguments that the engine accepts in one call: a call with more throws a
  \<^verbatim>\<open>RangeError\<close>.
\<close>

type_synonym entropy = "nat \<Rightarrow> byte"

record 'key platform =
  utf8_encode :: "string \<Rightarrow> ArrayBuffer"
  utf8_decode :: "ArrayBuffer \<Rightarrow> string"
  btoa :: "string \<Rightarrow> string"
  atob :: "string \<Rightarrow> string option"
  sha256 :: "ArrayBuffer \<Rightarrow> ArrayBuffer"
  pbkdf2_hmac :: "ArrayBuffer \<Rightarrow> ArrayBuffer \<Rightarrow> nat \<Rightarrow> 'key"
  aes_gcm_encrypt :: "'key \<Rightarrow> ArrayBuffer \<Rightarrow> ArrayBuffer \<Rightarrow> ArrayBuffer"
  aes_gcm_decrypt :: "'key \<Rightarrow> ArrayBuffer \<Rightarrow> ArrayBuffer \<Rightarrow> ArrayBuffer option"
  importKey_sign :: "jval \<Rightarrow> 'key option"
  importKey_verify :: "jval \<Rightarrow> 'key option"
  ecdsa_sign :: "'key \<Rightarrow> ArrayBuffer \<Rightarrow> entropy \<Rightarrow> ArrayBuffer \<times> entropy"
  ecdsa_verify :: "'key \<Rightarrow> ArrayBuffer \<Rightarrow> ArrayBuffer \<Rightarrow> bool"
  stringify_bundle :: "SweFileBundle \<Rightarrow> string"
  parse_bundle :: "string \<Rightarrow> SweFileBundle option"
  stringify_card :: "SignedProfileCard \<Rightarrow> string"
  parse_card :: "string \<Rightarrow> SignedProfileCard option"
  stringify_profile :: "ProfileCardData \<Rightarrow> string"
  parse_profile :: "string \<Rightarrow> ProfileCardData option"
  stringify_meta :: "QuickAccessMeta \<Rightarrow> string"
  max_arguments :: nat

text \<open>
  PBKDF2 with HMAC-SHA-256, as \<^verbatim>\<open>importKey('raw', pw, PBKDF2)\<close> followed by
  \<^verbatim>\<open>deriveKey\<close> runs it. The password is the key of HMAC, and HMAC brings its key to
  the block of 64 bytes before anything else: a key longer than the block is replaced
  by its SHA-256 digest, and the key is filled up with zero bytes (RFC 2104, RFC 8018).
  All that follows sees the password through this block only.
\<close>

definition hmac_key :: "'key platform \<Rightarrow> ArrayBuffer \<Rightarrow> ArrayBuffer" where
  "hmac_key P pw =
     (let k = (if 64 < length pw then sha256 P pw else pw)
      in k @ replicate (64 - length k) 0)"

definition pbkdf2 :: "'key platform \<Rightarrow> ArrayBuffer \<Rightarrow> ArrayBuffer \<Rightarrow> nat \<Rightarrow> 'key" where
  "pbkdf2 P pw salt n = pbkdf2_hmac P (hmac_key P pw) salt n"

text \<open>
  \<^verbatim>\<open>crypto.getRandomValues(new Uint8Array(n))\<close>: the random source is an unbounded supply
  of bytes; a call takes the next \<open>n\<close> of them and leaves the rest.
\<close>

definition getRandomValues :: "nat \<Rightarrow> entropy \<Rightarrow> ArrayBuffer \<times> entropy" where
  "getRandomValues n rng = (map rng [0..<n], \<lambda>i. rng (i + n))"

text \<open>The salt and the nonce that \<^verbatim>\<open>encryptForFile\<close> draws: the next 16 bytes, then 12.\<close>

definition drawn_salt :: "entropy \<Rightarrow> ArrayBuffer" where
  "drawn_salt rng = map rng [0..<16]"

definition drawn_iv :: "entropy \<Rightarrow> ArrayBuffer" where
  "drawn_iv rng = map rng [16..<28]"

section \<open>cryptoService (src/unnamed/part_004)\<close>

subsection \<open>Base64 helpers\<close>

definition arrayBufferToBase64 :: "'key platform \<Rightarrow> ArrayBuffer \<Rightarrow> string" where
  "arrayBufferToBase64 P buffer =
     btoa P (foldl (\<lambda>binary b. binary @ [fromCharCode b]) [] buffer)"

definition base64ToArrayBuffer :: "'key platform \<Rightarrow> string \<Rightarrow> js_error + ArrayBuffer" where
  "base64ToArrayBuffer P base64 =
     (case atob P base64 of
        None \<Rightarrow> Inl InvalidCharacterError
      | Some binaryString \<Rightarrow> Inr (map charCodeAt binaryString))"

definition safeStringToBase64 :: "'key platform \<Rightarrow> string \<Rightarrow> string" where
  "safeStringToBase64 P str = arrayBufferToBase64 P (utf8_encode P str)"

definition safeBase64ToString :: "'key platform \<Rightarrow> string \<Rightarrow> js_error + string" where
  "safeBase64ToString P b64 =
     (case base64ToArrayBuffer P b64 of
        Inl e \<Rightarrow> Inl e
      | Inr buffer \<Rightarrow> Inr (utf8_decode P buffer))"

subsection \<open>Hashing of security answers\<close>

definition hashText :: "'key platform \<Rightarrow> string \<Rightarrow> string" where
  "hashText P text =
     (let data = utf8_encode P (toLowerCase (trim text));
          hashBuffer = sha256 P data
      in arrayBufferToBase64 P hashBuffer)"

subsection \<open>The vault cipher\<close>

definition getEncryptionKey :: "'key platform \<Rightarrow> string \<Rightarrow> ArrayBuffer \<Rightarrow> 'key" where
  "getEncryptionKey P password salt = pbkdf2 P (utf8_encode P password) salt 200000"

definition encryptForFile ::
  "'key platform \<Rightarrow> entropy \<Rightarrow> SweFileBundle \<Rightarrow> string \<Rightarrow> ArrayBuffer \<times> entropy" where
  "encryptForFile P rng data password =
     (let (salt, rng1) = getRandomValues 16 rng;
          (iv, rng2) = getRandomValues 12 rng1;
          key = getEncryptionKey P password salt;
          serializedData = utf8_encode P (stringify_bundle P data);
          encryptedData = aes_gcm_encrypt P key iv serializedData
      in (salt @ iv @ encryptedData, rng2))"

text \<open>The body of the \<^verbatim>\<open>try\<close> block of \<^verbatim>\<open>decryptFromFile\<close>, with the exception it raises.\<close>

definition decryptFromFile_try ::
  "'key platform \<Rightarrow> ArrayBuffer \<Rightarrow> string \<Rightarrow> js_error + SweFileBundle" where
  "decryptFromFile_try P fileBuffer password =
     (let salt = slice_list 0 16 fileBuffer;
          iv = slice_list 16 28 fileBuffer;
          data = drop 28 fileBuffer;
          key = getEncryptionKey P password salt
      in case aes_gcm_decrypt P key iv data of
           None \<Rightarrow> Inl OperationError
         | Some decryptedData \<Rightarrow>
             (case parse_bundle P (utf8_decode P decryptedData) of
                None \<Rightarrow> Inl SyntaxError
              | Some bundle \<Rightarrow> Inr bundle))"

text \<open>"La desencriptaci\'on fall\'o. Revisa tu contrase\~na o el archivo puede estar corrupto."\<close>

definition decryption_failed :: string where
  "decryption_failed =
     ''La desencriptaci'' @ [char_of (243::nat)] @ ''n fall'' @ [char_of (243::nat)] @
     ''. Revisa tu contrase'' @ [char_of (241::nat)] @ ''a o el archivo puede estar corrupto.''"

definition decryptFromFile ::
  "'key platform \<Rightarrow> ArrayBuffer \<Rightarrow> string \<Rightarrow> js_error + SweFileBundle" where
  "decryptFromFile P fileBuffer password =
     (case decryptFromFile_try P fileBuffer password of
        Inl error \<Rightarrow> Inl (Error decryption_failed)
      | Inr bundle \<Rightarrow> Inr bundle)"

subsection \<open>Profile cards\<close>

text \<open>\<^verbatim>\<open>safeStringToBase64(JSON.stringify(card))\<close>, the last line of \<^verbatim>\<open>createProfileCard\<close>.\<close>

definition encodeCard :: "'key platform \<Rightarrow> SignedProfileCard \<Rightarrow> string" where
  "encodeCard P pcard = safeStringToBase64 P (stringify_card P pcard)"

text \<open>\<^verbatim>\<open>JSON.parse(safeBase64ToString(cardString))\<close>, the first line of \<^verbatim>\<open>verifyProfileCard\<close>.\<close>

definition decodeCard :: "'key platform \<Rightarrow> string \<Rightarrow> js_error + SignedProfileCard" where
  "decodeCard P cardString =
     (case safeBase64ToString P cardString of
        Inl e \<Rightarrow> Inl e
      | Inr json \<Rightarrow>
          (case parse_card P json of None \<Rightarrow> Inl SyntaxError | Some pcard \<Rightarrow> Inr pcard))"

text \<open>\<^verbatim>\<open>createProfileCard\<close> has no handler of its own: a key that does not import is thrown on.\<close>

definition createProfileCard ::
  "'key platform \<Rightarrow> entropy \<Rightarrow> AccountSettings \<Rightarrow> js_error + string \<times> entropy" where
  "createProfileCard P rng acct =
     (case importKey_sign P (acc_privateKey acct) of
        None \<Rightarrow> Inl DataError
      | Some privateKey \<Rightarrow>
          (let profileData = \<lparr>userId = acc_userId acct, username = acc_username acct,
                              avatarUrl = acc_avatarUrl acct, status = acc_status acct\<rparr>;
               encodedData = safeStringToBase64 P (stringify_profile P profileData);
               (signature, rng') = ecdsa_sign P privateKey (utf8_encode P encodedData) rng;
               pcard = \<lparr>card_v = ''wpc1'', card_publicKey = acc_publicKey acct,
                       card_data = encodedData, card_sig = arrayBufferToBase64 P signature\<rparr>
           in Inr (encodeCard P pcard, rng')))"

text \<open>"Versi\'on de tarjeta no soportada."\<close>

definition unsupported_card_version :: string where
  "unsupported_card_version = ''Versi'' @ [char_of (243::nat)] @ ''n de tarjeta no soportada.''"

text \<open>"Firma inv\'alida. La tarjeta de perfil puede haber sido manipulada."\<close>

definition invalid_signature :: string where
  "invalid_signature =
     ''Firma inv'' @ [char_of (225::nat)] @ ''lida. La tarjeta de perfil puede haber sido manipulada.''"

text \<open>"La tarjeta de perfil no es v\'alida o est\'a corrupta."\<close>

definition invalid_card :: string where
  "invalid_card =
     ''La tarjeta de perfil no es v'' @ [char_of (225::nat)] @ ''lida o est'' @
     [char_of (225::nat)] @ '' corrupta.''"

text \<open>The body of the \<^verbatim>\<open>try\<close> block of \<^verbatim>\<open>verifyProfileCard\<close>.\<close>

definition verifyProfileCard_try :: "'key platform \<Rightarrow> string \<Rightarrow> js_error + Friend" where
  "verifyProfileCard_try P cardString =
     (case decodeCard P cardString of
        Inl e \<Rightarrow> Inl e
      | Inr pcard \<Rightarrow>
          if card_v pcard \<noteq> ''wpc1'' then Inl (Error unsupported_card_version)
          else
            (case importKey_verify P (card_publicKey pcard) of
               None \<Rightarrow> Inl DataError
             | Some publicKey \<Rightarrow>
                 (case base64ToArrayBuffer P (card_sig pcard) of
                    Inl e \<Rightarrow> Inl e
                  | Inr signature \<Rightarrow>
                      (let dataToVerify = utf8_encode P (card_data pcard);
                           isValid = ecdsa_verify P publicKey signature dataToVerify
                       in if \<not> isValid then Inl (Error invalid_signature)
                          else
                            (case safeBase64ToString P (card_data pcard) of
                               Inl e \<Rightarrow> Inl e
                             | Inr json \<Rightarrow>
                                 (case parse_profile P json of
                                    None \<Rightarrow> Inl SyntaxError
                                  | Some profileData \<Rightarrow>
                                      Inr \<lparr>userId = userId profileData,
                                           username = username profileData,
                                           avatarUrl = avatarUrl profileData,
                                           status = status profileData\<rparr>))))))"

definition verifyProfileCard :: "'key platform \<Rightarrow> string \<Rightarrow> js_error + Friend" where
  "verifyProfileCard P cardString =
     (case verifyProfileCard_try P cardString of
        Inl error \<Rightarrow> Inl (Error invalid_card)
      | Inr friend \<Rightarrow> Inr friend)"

section \<open>The password recovery component (src/App.tsx, PasswordRecovery)\<close>

text \<open>
  The state of \<^verbatim>\<open>PasswordRecovery\<close>: \<open>step\<close> is 0 for the hint, 1 for the questions
  and 2 for the reset of the password.
\<close>

record RecoveryState =
  step :: nat
  answers :: "string list"
  newPassword :: string
  confirmPassword :: string

text \<open>\<^verbatim>\<open>settings.account.securityQuestions || []\<close>\<close>

definition questionData :: "AccountSettings \<Rightarrow> SecurityQuestion list" where
  "questionData acct = (case acc_securityQuestions acct of None \<Rightarrow> [] | Some qs \<Rightarrow> qs)"

text \<open>The initial values of the four \<^verbatim>\<open>useState\<close> hooks.\<close>

definition initialRecovery :: "AccountSettings \<Rightarrow> RecoveryState" where
  "initialRecovery acct =
     \<lparr>step = 0, answers = replicate (length (questionData acct)) [],
      newPassword = [], confirmPassword = []\<rparr>"

text \<open>
  \<^verbatim>\<open>newAnswers[index] = value\<close> on a copy of the array. The inputs that call it exist for
  the indices of the configured questions only; an assignment past the end would
  extend the array, the holes read as empty here.
\<close>

definition handleAnswerChange :: "RecoveryState \<Rightarrow> nat \<Rightarrow> string \<Rightarrow> RecoveryState" where
  "handleAnswerChange st index v =
     (let newAnswers =
            (if index < length (answers st) then (answers st)[index := v]
             else answers st @ replicate (index - length (answers st)) [] @ [v])
      in st\<lparr>answers := newAnswers\<rparr>)"

text \<open>"Una o m\'as respuestas son incorrectas."\<close>

definition answers_incorrect :: string where
  "answers_incorrect = ''Una o m'' @ [char_of (225::nat)] @ ''s respuestas son incorrectas.''"

text \<open>
  The \<^verbatim>\<open>for\<close> loop of \<^verbatim>\<open>verifyAnswers\<close> from index \<open>i\<close> on: \<open>False\<close> when it leaves
  through the \<^verbatim>\<open>alert\<close> and \<^verbatim>\<open>return\<close>, \<open>True\<close> when it runs to its end. It is entered
  when both arrays have the same length only.
\<close>

function verifyLoop ::
  "'key platform \<Rightarrow> string list \<Rightarrow> SecurityQuestion list \<Rightarrow> nat \<Rightarrow> bool" where
  "verifyLoop P ans qs i =
     (if i < length ans then
        (let hashedAnswer = hashText P (ans ! i)
         in if hashedAnswer \<noteq> answerHash (qs ! i) then False
            else verifyLoop P ans qs (i + 1))
      else True)"
  by pat_completeness auto
termination
  by (relation "measure (\<lambda>(P, ans, qs, i). length ans - i)") auto

declare verifyLoop.simps [simp del]

text \<open>\<^verbatim>\<open>verifyAnswers\<close>: the new state and the messages shown with \<^verbatim>\<open>alert\<close>.\<close>

definition verifyAnswers ::
  "'key platform \<Rightarrow> AccountSettings \<Rightarrow> RecoveryState \<Rightarrow> RecoveryState \<times> string list" where
  "verifyAnswers P acct st =
     (if length (answers st) \<noteq> length (questionData acct) then (st, [])
      else if verifyLoop P (answers st) (questionData acct) 0 then (st\<lparr>step := 2\<rparr>, [])
      else (st, [answers_incorrect]))"

text \<open>
  What the user can do, and the callbacks into the parent. The component renders the
  controls of the current step only, and nothing but the way back when no security
  question is configured; the button that saves is disabled unless the new password
  has 8 characters and equals its confirmation.
\<close>

datatype RecoveryEvent =
    ClickStillForgotten
  | ClickBack
  | ChangeAnswer nat string
  | ClickVerify
  | ChangeNewPassword string
  | ChangeConfirmPassword string
  | ClickSave

datatype RecoveryCallback = OnBack | OnRecover string

definition recoveryEvent ::
  "'key platform \<Rightarrow> AccountSettings \<Rightarrow> RecoveryState \<Rightarrow> RecoveryEvent
     \<Rightarrow> RecoveryState \<times> string list \<times> RecoveryCallback option" where
  "recoveryEvent P acct st ev =
     (if acc_securityQuestions acct = None \<or> length (questionData acct) = 0 then
        (case ev of ClickBack \<Rightarrow> (st, [], Some OnBack) | _ \<Rightarrow> (st, [], None))
      else if step st = 0 then
        (case ev of
           ClickStillForgotten \<Rightarrow> (st\<lparr>step := 1\<rparr>, [], None)
         | ClickBack \<Rightarrow> (st, [], Some OnBack)
         | _ \<Rightarrow> (st, [], None))
      else if step st = 1 then
        (case ev of
           ChangeAnswer i v \<Rightarrow>
             (if i < length (questionData acct) then (handleAnswerChange st i v, [], None)
              else (st, [], None))
         | ClickVerify \<Rightarrow>
             (let (st', alerts) = verifyAnswers P acct st in (st', alerts, None))
         | _ \<Rightarrow> (st, [], None))
      else if step st = 2 then
        (case ev of
           ChangeNewPassword v \<Rightarrow> (st\<lparr>newPassword := v\<rparr>, [], None)
         | ChangeConfirmPassword v \<Rightarrow> (st\<lparr>confirmPassword := v\<rparr>, [], None)
         | ClickSave \<Rightarrow>
             (if length (newPassword st) < 8 \<or> newPassword st \<noteq> confirmPassword st
              then (st, [], None)
              else (st, [], Some (OnRecover (newPassword st))))
         | _ \<Rightarrow> (st, [], None))
      else (st, [], None))"

fun runRecovery ::
  "'key platform \<Rightarrow> AccountSettings \<Rightarrow> RecoveryState \<Rightarrow> RecoveryEvent list \<Rightarrow> RecoveryState" where
  "runRecovery P acct st [] = st"
| "runRecovery P acct st (ev # evs) = runRecovery P acct (fst (recoveryEvent P acct st ev)) evs"

text \<open>Every configured question is answered with the stored hash.\<close>

definition allAnswersMatch :: "'key platform \<Rightarrow> AccountSettings \<Rightarrow> RecoveryState \<Rightarrow> bool" where
  "allAnswersMatch P acct st =
     (length (answers st) = length (questionData acct) \<and>
      list_all2 (\<lambda>a q. hashText P a = answerHash q) (answers st) (questionData acct))"

section \<open>The application shell (src/App.tsx, App)\<close>

datatype View =
    Login | Onboarding | Home | Reading | Form | ReviewingPilot | SettingsView
  | InspirationBoard | Fandom | UniverseHub | PasswordRecoveryView | WeaverinsHub
  | StoryPreview | Profile

definition DATA_VERSION :: int where
  "DATA_VERSION = 7"

text \<open>
  The modal dialogs that \<^verbatim>\<open>decryptAndLoad\<close> opens, with what their buttons close over:
  the warning about an old file (the bundle and the password) and the offer of quick
  access (the bytes of the vault).
\<close>

datatype Modal =
    LegacyVersionModal SweFileBundle string
  | QuickAccessModal ArrayBuffer

text \<open>
  The state of the \<^verbatim>\<open>App\<close> component that the login and recovery handlers read or
  write: its \<^verbatim>\<open>useState\<close> hooks, the \<^verbatim>\<open>sessionPassword\<close> ref, the browser's
  \<^verbatim>\<open>localStorage\<close> and the callbacks scheduled with \<^verbatim>\<open>setTimeout\<close>. The
  \<^verbatim>\<open>localStorage\<close> is a map that takes every write: a browser that refuses to store
  is not modelled.
\<close>

record AppState =
  view :: View
  stories :: "jval list"
  universes :: "jval list"
  presets :: "jval list"
  isLoading :: bool
  loadingMessage :: string
  error :: "string option"
  notification :: "string option"
  modalContent :: "Modal option"
  isGuest :: bool
  isLegacyMode :: bool
  sessionPassword :: "string option"
  settings :: AppSettings
  quickAccessMeta :: "QuickAccessMeta option"
  localStorage :: "string \<rightharpoonup> string"
  timeouts :: "Modal list"

text \<open>An object literal.\<close>

definition object :: "(string \<times> jval) list \<Rightarrow> obj" where
  "object kvs = map_of kvs"

subsection \<open>\<^verbatim>\<open>initialSettings\<close>\<close>

definition initial_general :: obj where
  "initial_general = object
     [(''appLanguage'', JStr (''Espa'' @ [char_of (241::nat)] @ ''ol'')),
      (''startupView'', JStr ''Biblioteca''),
      (''timezone'', JStr ''America/New_York''), (''uiTheme'', JStr ''dark''),
      (''uiMode'', JStr ''standard''), (''showTooltips'', JStr ''basic''),
      (''lastRead'', JNull),
      (''notificationSettings'', JObj [(''storyReady'', JBool True), (''achievements'', JBool True), (''social'', JBool True), (''promotions'', JBool False)]),
      (''matureContentFilter'', JStr ''on'')]"

definition initial_account :: obj where
  "initial_account = object
     [(''userId'', JStr ([])),
      (''username'', JStr (''Lector An'' @ [char_of (243::nat)] @ ''nimo'')),
      (''avatarUrl'', JStr ([])),
      (''status'', JStr ([char_of (161::nat)] @ ''Listo para tejer historias!'')),
      (''tier'', JStr ''free''), (''tierExpiresAt'', JNull),
      (''autoRenewTier'', JBool False), (''favoriteGenres'', JArr []),
      (''favoriteFandoms'', JStr ([])),
      (''favoriteWritingStyle'', JStr (''Cinematogr'' @ [char_of (225::nat)] @ ''fico'')),
      (''favoriteCharacters'', JStr ([])), (''weaverins'', JNum 500),
      (''savingsGoal'', JNum 0), (''stingyMode'', JBool False),
      (''purchases'', JArr []),
      (''quests'', JObj [(''firstStoryCompleted'', JBool False), (''tenChaptersRead'', JBool False), (''firstFriendAdded'', JBool False), (''firstPresetSaved'', JBool False)]),
      (''signingKeyPair'', JObj [(''privateKey'', JObj []), (''publicKey'', JObj [])]),
      (''achievements'', JObj []), (''avatarFrame'', JStr ''none''),
      (''passwordHint'', JStr ([])), (''securityQuestions'', JArr []),
      (''writerRank'', JStr ''C''), (''rankPoints'', JNum 0),
      (''parentalControls'', JNull), (''dailyQuests'', JArr [])]"

definition initial_ai :: obj where
  "initial_ai = object
     [(''defaultWritingStyle'', JStr (''Cinematogr'' @ [char_of (225::nat)] @ ''fico'')),
      (''defaultPointOfView'', JStr ''Tercera Persona Limitada''),
      (''aiLanguage'', JStr (''Espa'' @ [char_of (241::nat)] @ ''ol'')),
      (''creativeFreedom'', JNum 75), (''storyContinuityLevel'', JNum 80),
      (''branchingComplexity'', JNum 50),
      (''defaultIllustrationStyle'', JStr (''Fantas'' @ [char_of (237::nat)] @ ''a Digital'')),
      (''defaultNegativePrompt'', JStr ''texto, firmas, marcas de agua''),
      (''autoGenerateTags'', JBool True), (''imageQuality'', JStr ''Standard''),
      (''plugins'', JArr [])]"

definition initial_readerDefaults :: obj where
  "initial_readerDefaults = object
     [(''font'', JStr ''serif''), (''fontSize'', JNum 18), (''theme'', JStr ''dark''),
      (''lineHeight'', JNum (7 / 4)), (''justifyText'', JBool False),
      (''showProgressBar'', JBool True), (''showTimeLeft'', JBool True),
      (''autoLoadNextChapter'', JBool False), (''tapNavigation'', JBool True),
      (''enableBionicReading'', JBool False), (''cinemaMode'', JBool False),
      (''dynamicTypography'', JBool True), (''dynamicBackgrounds'', JBool True),
      (''showMiniHud'', JBool True)]"

definition initial_accessibility :: obj where
  "initial_accessibility = object
     [(''highContrast'', JBool False), (''dyslexiaFriendlyFont'', JBool False),
      (''reduceAnimations'', JBool False), (''textToSpeech'', JBool True),
      (''ttsVoice'', JStr ''default''), (''ttsSpeed'', JNum 1), (''ttsPitch'', JNum 1),
      (''voiceNavigation'', JBool False)]"

definition initial_storage :: obj where
  "initial_storage = object
     [(''autoSaveEnabled'', JBool False), (''autoSaveInterval'', JNum 60),
      (''maxCacheSizeMB'', JNum 500), (''autoClearCache'', JBool False),
      (''quickAccessVault'', JNull)]"

definition initial_connection :: obj where
  "initial_connection = object
     [(''downloadIllustrationsOnWifiOnly'', JBool False),
      (''syncOnWifiOnly'', JBool True), (''dataSaverMode'', JBool False)]"

definition initial_social :: obj where
  "initial_social = object
     [(''profileVisibility'', JStr ''Privado''), (''showOnlineStatus'', JBool True),
      (''allowFriendRequests'', JBool True),
      (''allowStoryComments'', JStr ''friends''), (''friendsList'', JArr []),
      (''blockedUsers'', JArr [])]"

definition initial_privacy :: obj where
  "initial_privacy = object
     [(''dataProcessingConsent'', JBool True), (''shareAnalytics'', JBool True)]"

definition initial_keybindings :: obj where
  "initial_keybindings = object
     [(''nextPage'', JStr ''ArrowRight''), (''prevPage'', JStr ''ArrowLeft''),
      (''toggleFocusMode'', JStr ''f''), (''openSettings'', JStr ''ctrl+s''),
      (''newStory'', JStr ''ctrl+n''), (''commandPalette'', JStr ''ctrl+k'')]"

definition initialSettings :: AppSettings where
  "initialSettings =
     \<lparr>general = initial_general,
      account = initial_account,
      ai = initial_ai,
      readerDefaults = initial_readerDefaults,
      accessibility = initial_accessibility,
      storage = initial_storage,
      connection = initial_connection,
      social = initial_social,
      privacy = initial_privacy,
      keybindings = initial_keybindings\<rparr>"

subsection \<open>Messages\<close>

definition unlocking_vault :: string where
  "unlocking_vault = ''Desbloqueando b'' @ [char_of (243::nat)] @ ''veda...''"

definition unknown_login_error :: string where
  "unknown_login_error = ''Error desconocido al iniciar sesi'' @ [char_of (243::nat)] @ ''n.''"

definition compatibility_mode_on :: string where
  "compatibility_mode_on = ''Modo de compatibilidad activado.''"

definition quick_access_on :: string where
  "quick_access_on = [char_of (161::nat)] @ ''Acceso R'' @ [char_of (225::nat)] @ ''pido activado!''"




subsection \<open>Helpers of App.tsx\<close>

text \<open>
  \<^verbatim>\<open>window.btoa(String.fromCharCode(...new Uint8Array(buffer)))\<close>. The spread passes
  every byte as an argument of one call, which throws a \<^verbatim>\<open>RangeError\<close> when the buffer
  has more bytes than the engine accepts arguments. The helper of the same name in
  \<^verbatim>\<open>cryptoService\<close> appends the characters in a loop and has no such limit.
\<close>

definition App_arrayBufferToBase64 :: "'key platform \<Rightarrow> ArrayBuffer \<Rightarrow> js_error + string" where
  "App_arrayBufferToBase64 P buffer =
     (if max_arguments P < length buffer then Inl RangeError
      else Inr (btoa P (map fromCharCode buffer)))"


text \<open>Whether a property value passes an \<^verbatim>\<open>if\<close>: \<^verbatim>\<open>undefined\<close>, \<^verbatim>\<open>null\<close>,
  \<^verbatim>\<open>false\<close>, 0 and the empty string do not.\<close>

fun truthy :: "jval option \<Rightarrow> bool" where
  "truthy None = False"
| "truthy (Some JNull) = False"
| "truthy (Some (JBool b)) = b"
| "truthy (Some (JNum n)) = (n \<noteq> 0)"
| "truthy (Some (JStr s)) = (s \<noteq> [])"
| "truthy (Some (JArr xs)) = True"
| "truthy (Some (JObj kvs)) = True"

text \<open>\<^verbatim>\<open>xs || []\<close> for a list of the bundle.\<close>

definition orEmpty :: "'a list option \<Rightarrow> 'a list" where
  "orEmpty xs = (case xs of None \<Rightarrow> [] | Some ys \<Rightarrow> ys)"

subsection \<open>Loading a bundle\<close>

definition loadDataBundle :: "'key platform \<Rightarrow> AppState \<Rightarrow> SweFileBundle \<Rightarrow> string \<Rightarrow> AppState" where
  "loadDataBundle P st bundle password =
     (let loadedSettings = bundle_settings bundle;
          mergedSettings =
            \<lparr>general = general initialSettings ++ general loadedSettings,
             account = account initialSettings ++ account loadedSettings,
             ai = ai initialSettings ++ ai loadedSettings,
             readerDefaults = readerDefaults initialSettings ++ readerDefaults loadedSettings,
             accessibility = accessibility initialSettings ++ accessibility loadedSettings,
             storage = (storage initialSettings ++ storage loadedSettings)
               (''quickAccessVault'' := storage (settings st) ''quickAccessVault''),
             connection = connection initialSettings ++ connection loadedSettings,
             social = social initialSettings ++ social loadedSettings,
             privacy = privacy initialSettings ++ privacy loadedSettings,
             keybindings = keybindings initialSettings ++ keybindings loadedSettings\<rparr>;
          newMeta =
            \<lparr>meta_username = account mergedSettings ''username'',
             meta_passkeyCredentialId = account mergedSettings ''passkeyCredentialId''\<rparr>
      in st\<lparr>stories := orEmpty (bundle_stories bundle),
            presets := orEmpty (bundle_presets bundle),
            universes := orEmpty (bundle_universes bundle),
            settings := mergedSettings,
            sessionPassword := Some password,
            quickAccessMeta := Some newMeta,
            localStorage := (localStorage st)(''weaver_meta'' \<mapsto> stringify_meta P newMeta),
            view := Home,
            isGuest := False\<rparr>)"

text \<open>\<^verbatim>\<open>!bundle.version || bundle.version < DATA_VERSION\<close>\<close>

definition isOldVersion :: "SweFileBundle \<Rightarrow> bool" where
  "isOldVersion bundle =
     (case bundle_version bundle of
        None \<Rightarrow> True
      | Some v \<Rightarrow> v = 0 \<or> v < DATA_VERSION)"

text \<open>
  \<^verbatim>\<open>decryptAndLoad\<close> up to its return. The handlers of the \<^verbatim>\<open>App\<close> close over the
  \<^verbatim>\<open>settings\<close> of the render that created them, so the test for an existing quick
  access reads the state the function was called in.
\<close>

definition decryptAndLoad :: "'key platform \<Rightarrow> AppState \<Rightarrow> ArrayBuffer \<Rightarrow> string \<Rightarrow> AppState" where
  "decryptAndLoad P st vaultBuffer password =
     (let st1 = st\<lparr>isLoading := True, loadingMessage := unlocking_vault, error := None\<rparr>
      in case decryptFromFile P vaultBuffer password of
           Inl err \<Rightarrow>
             st1\<lparr>error := Some (case err of Error message \<Rightarrow> message | _ \<Rightarrow> unknown_login_error),
                 isLoading := False\<rparr>
         | Inr bundle \<Rightarrow>
             if isOldVersion bundle then
               st1\<lparr>modalContent := Some (LegacyVersionModal bundle password)\<rparr>
             else
               (let st2 = loadDataBundle P (st1\<lparr>isLegacyMode := False\<rparr>) bundle password;
                    st3 = (if \<not> truthy (storage (settings st) ''quickAccessVault'')
                           then st2\<lparr>timeouts := timeouts st2 @ [QuickAccessModal vaultBuffer]\<rparr>
                           else st2)
                in st3\<lparr>isLoading := False\<rparr>))"

text \<open>The buttons of the two dialogs; closing a dialog does what its first button does.\<close>

datatype ModalButton = FirstButton | SecondButton | CloseButton

definition legacyCancel :: "AppState \<Rightarrow> AppState" where
  "legacyCancel st = st\<lparr>modalContent := None, isLoading := False\<rparr>"

definition legacyContinue :: "'key platform \<Rightarrow> AppState \<Rightarrow> SweFileBundle \<Rightarrow> string \<Rightarrow> AppState" where
  "legacyContinue P st bundle password =
     (let st1 = st\<lparr>modalContent := None, isLegacyMode := True\<rparr>;
          st2 = loadDataBundle P st1 bundle password
      in st2\<lparr>notification := Some compatibility_mode_on, isLoading := False\<rparr>)"

definition quickAccessDecline :: "AppState \<Rightarrow> AppState" where
  "quickAccessDecline st = st\<lparr>modalContent := None\<rparr>"

text \<open>
  The button that activates quick access. Its handler has no \<^verbatim>\<open>try\<close>: when the
  conversion throws, the handler ends there and the state is as it was.
\<close>

definition quickAccessActivate :: "'key platform \<Rightarrow> AppState \<Rightarrow> ArrayBuffer \<Rightarrow> AppState" where
  "quickAccessActivate P st vaultBuffer =
     (case App_arrayBufferToBase64 P vaultBuffer of
        Inl e \<Rightarrow> st
      | Inr vaultBase64 \<Rightarrow>
          st\<lparr>localStorage := (localStorage st)(''weaver_quick_access_vault'' \<mapsto> vaultBase64),
             settings := (settings st)
               \<lparr>storage := (storage (settings st))(''quickAccessVault'' \<mapsto> JStr vaultBase64)\<rparr>,
             notification := Some quick_access_on,
             modalContent := None\<rparr>)"

definition clickModal :: "'key platform \<Rightarrow> AppState \<Rightarrow> ModalButton \<Rightarrow> AppState" where
  "clickModal P st button =
     (case modalContent st of
        None \<Rightarrow> st
      | Some (LegacyVersionModal bundle password) \<Rightarrow>
          (case button of
             SecondButton \<Rightarrow> legacyContinue P st bundle password
           | _ \<Rightarrow> legacyCancel st)
      | Some (QuickAccessModal vaultBuffer) \<Rightarrow>
          (case button of
             SecondButton \<Rightarrow> quickAccessActivate P st vaultBuffer
           | _ \<Rightarrow> quickAccessDecline st))"

text \<open>A scheduled callback runs: \<^verbatim>\<open>setModalContent\<close> opens the dialog it carries.\<close>

definition fireTimeout :: "AppState \<Rightarrow> AppState" where
  "fireTimeout st =
     (case timeouts st of
        [] \<Rightarrow> st
      | m # ms \<Rightarrow> st\<lparr>modalContent := Some m, timeouts := ms\<rparr>)"

subsection \<open>Resetting the password\<close>


section \<open>Assumptions on the platform\<close>

text \<open>
  The properties of the browser's primitives that the theorems below name as
  hypotheses. The first three are exact: \<^verbatim>\<open>TextDecoder\<close> inverts \<^verbatim>\<open>TextEncoder\<close> (on
  well-formed strings), \<^verbatim>\<open>atob\<close> inverts \<^verbatim>\<open>btoa\<close>, and AES-GCM decrypts what it
  encrypted. The others are the usual idealisation of cryptography, in which what holds
  up to a negligible probability holds always: the authentication tag of AES-GCM
  rejects another key or nonce, a changed byte and a truncation; HMAC key blocks (of 64
  bytes) that differ derive different keys; SHA-256 has no collisions; under a given public key a
  signature verifies for one message only; the random source does not hand out the
  same block of 12 bytes twice among the bytes that are drawn. Nothing is assumed about
  two passwords with the same HMAC key block, nor about the public keys under which a
  given signature verifies: a second such key can be computed from an ECDSA signature
  and its message.
\<close>

definition text_codec :: "'key platform \<Rightarrow> bool" where
  "text_codec P \<longleftrightarrow> (\<forall>s. utf8_decode P (utf8_encode P s) = s)"

definition base64_codec :: "'key platform \<Rightarrow> bool" where
  "base64_codec P \<longleftrightarrow> (\<forall>s. atob P (btoa P s) = Some s)"

definition aead_correct :: "'key platform \<Rightarrow> bool" where
  "aead_correct P \<longleftrightarrow>
     (\<forall>k iv m. aes_gcm_decrypt P k iv (aes_gcm_encrypt P k iv m) = Some m)"

definition aead_authentic :: "'key platform \<Rightarrow> bool" where
  "aead_authentic P \<longleftrightarrow>
     (\<forall>k iv m k' iv'. k' \<noteq> k \<or> iv' \<noteq> iv \<longrightarrow>
        aes_gcm_decrypt P k' iv' (aes_gcm_encrypt P k iv m) = None) \<and>
     (\<forall>k iv m i b. i < length (aes_gcm_encrypt P k iv m) \<and> b \<noteq> aes_gcm_encrypt P k iv m ! i \<longrightarrow>
        aes_gcm_decrypt P k iv ((aes_gcm_encrypt P k iv m)[i := b]) = None) \<and>
     (\<forall>k iv m n. n < length (aes_gcm_encrypt P k iv m) \<longrightarrow>
        aes_gcm_decrypt P k iv (take n (aes_gcm_encrypt P k iv m)) = None) \<and>
     (\<forall>k iv. aes_gcm_decrypt P k iv [] = None)"


definition hash_collision_free :: "'key platform \<Rightarrow> bool" where
  "hash_collision_free P \<longleftrightarrow> (\<forall>d d'. sha256 P d = sha256 P d' \<longrightarrow> d = d')"

definition signature_binds_message :: "'key platform \<Rightarrow> 'key \<Rightarrow> bool" where
  "signature_binds_message P pk \<longleftrightarrow>
     (\<forall>sg m m'. ecdsa_verify P pk sg m \<and> ecdsa_verify P pk sg m' \<longrightarrow> m = m')"

text \<open>
  Among the first \<open>N\<close> bytes of the random source no block of 12 bytes occurs at two
  places.
\<close>

definition no_repeated_block :: "nat \<Rightarrow> entropy \<Rightarrow> bool" where
  "no_repeated_block N rng \<longleftrightarrow>
     (\<forall>i j. i < j \<and> j + 12 \<le> N \<longrightarrow> map rng [i..<i + 12] \<noteq> map rng [j..<j + 12])"


section \<open>Instances of the platform\<close>

text \<open>
  A small platform that meets all the assumptions at once, so that they are
  consistent, and sample data to run the functions on. Its cipher writes every byte
  of the plaintext twice and appends the key and the nonce behind the mark 0, 1; its
  key derivation appends the salt to the HMAC key block; its signature is the message,
  written twice, with the key; its base64 and its digest are the identity; its JSON
  knows the sample values only; its calls take 65536 arguments.
\<close>

fun dbl :: "ArrayBuffer \<Rightarrow> ArrayBuffer" where
  "dbl [] = []"
| "dbl (b # bs) = b # b # dbl bs"

fun undbl :: "ArrayBuffer \<Rightarrow> ArrayBuffer" where
  "undbl (a # b # rest) = (if a = b then a # undbl rest else [])"
| "undbl [a] = []"
| "undbl [] = []"

definition ref_encrypt :: "ArrayBuffer \<Rightarrow> ArrayBuffer \<Rightarrow> ArrayBuffer \<Rightarrow> ArrayBuffer" where
  "ref_encrypt k iv m = dbl m @ [0, 1] @ dbl k @ [0, 1] @ iv"

definition ref_decrypt :: "ArrayBuffer \<Rightarrow> ArrayBuffer \<Rightarrow> ArrayBuffer \<Rightarrow> ArrayBuffer option" where
  "ref_decrypt k iv c = (let m = undbl c in if c = ref_encrypt k iv m then Some m else None)"

definition ref_importKey :: "jval \<Rightarrow> ArrayBuffer option" where
  "ref_importKey jwk = (case jwk of JStr s \<Rightarrow> Some (map charCodeAt s) | _ \<Rightarrow> None)"

definition sample_bundle :: "int option \<Rightarrow> SweFileBundle" where
  "sample_bundle v =
     \<lparr>bundle_stories = Some [JStr ''a story''],
      bundle_presets = Some [],
      bundle_settings = initialSettings
        \<lparr>storage := (storage initialSettings)(''quickAccessVault'' \<mapsto> JStr ''carried'')\<rparr>,
      bundle_universes = None,
      bundle_readerSettings = None,
      bundle_version = v\<rparr>"

text \<open>The state of the application before any login.\<close>

definition loggedOut :: AppState where
  "loggedOut =
     \<lparr>view = Login, stories = [], universes = [], presets = [], isLoading = False,
      loadingMessage = [], error = None, notification = None, modalContent = None,
      isGuest = False, isLegacyMode = False, sessionPassword = None,
      settings = initialSettings, quickAccessMeta = None, localStorage = Map.empty,
      timeouts = []\<rparr>"


definition session_bundle :: SweFileBundle where
  "session_bundle =
     \<lparr>bundle_stories = Some [JStr ''a story''],
      bundle_presets = Some [JStr ''a preset''],
      bundle_settings = initialSettings
        \<lparr>storage := (storage initialSettings)(''quickAccessVault'' \<mapsto> JStr ''old vault'')\<rparr>,
      bundle_universes = Some [JStr ''a universe''],
      bundle_readerSettings = Some initial_readerDefaults,
      bundle_version = Some 7\<rparr>"

definition ref_stringify_bundle :: "SweFileBundle \<Rightarrow> string" where
  "ref_stringify_bundle b =
     (if bundle_universes b \<noteq> None then ''session''
      else
        (case bundle_version b of
           None \<Rightarrow> ''none''
         | Some v \<Rightarrow> if v < 7 then ''old'' else if v = 7 then ''current'' else ''newer''))"

definition ref_parse_bundle :: "string \<Rightarrow> SweFileBundle option" where
  "ref_parse_bundle s =
     (if s = ''none'' then Some (sample_bundle None)
      else if s = ''old'' then Some (sample_bundle (Some 5))
      else if s = ''current'' then Some (sample_bundle (Some 7))
      else if s = ''newer'' then Some (sample_bundle (Some 8))
      else if s = ''session'' then Some session_bundle
      else None)"

definition sample_profile :: ProfileCardData where
  "sample_profile =
     \<lparr>userId = ''u1'', username = ''alice'', avatarUrl = ''a.png'', status = ''hello''\<rparr>"

definition sample_account :: AccountSettings where
  "sample_account =
     \<lparr>acc_userId = ''u1'', acc_username = ''alice'', acc_avatarUrl = ''a.png'',
      acc_status = ''hello'', acc_privateKey = JStr ''k'', acc_publicKey = JStr ''k'',
      acc_passwordHint = ''pet'',
      acc_securityQuestions =
        Some [\<lparr>question = ''pet?'', answerHash = ''rex''\<rparr>,
              \<lparr>question = ''city?'', answerHash = ''paris''\<rparr>]\<rparr>"

definition sample_card :: SignedProfileCard where
  "sample_card =
     \<lparr>card_v = ''wpc1'', card_publicKey = JStr ''k'', card_data = ''p'',
      card_sig = map fromCharCode (dbl (map charCodeAt ''p'') @ [0, 1] @ map charCodeAt ''k'')\<rparr>"

definition ref_stringify_card :: "SignedProfileCard \<Rightarrow> string" where
  "ref_stringify_card c =
     (if card_data c = ''p'' \<and> card_publicKey c = JStr ''k'' then ''card''
      else if card_data c = ''p'' then ''other key''
      else ''other data'')"

definition ref_parse_card :: "string \<Rightarrow> SignedProfileCard option" where
  "ref_parse_card s =
     (if s = ''card'' then Some sample_card
      else if s = ''other key'' then Some (sample_card\<lparr>card_publicKey := JStr ''j''\<rparr>)
      else if s = ''other data'' then Some (sample_card\<lparr>card_data := ''q''\<rparr>)
      else None)"

definition ref_platform :: "ArrayBuffer platform" where
  "ref_platform =
     \<lparr>utf8_encode = map charCodeAt,
      utf8_decode = map fromCharCode,
      btoa = (\<lambda>s. s),
      atob = Some,
      sha256 = (\<lambda>d. d),
      pbkdf2_hmac = (\<lambda>k salt n. k @ salt),
      aes_gcm_encrypt = ref_encrypt,
      aes_gcm_decrypt = ref_decrypt,
      importKey_sign = ref_importKey,
      importKey_verify = ref_importKey,
      ecdsa_sign = (\<lambda>k m rng. (dbl m @ [0, 1] @ k, rng)),
      ecdsa_verify = (\<lambda>k sg m. sg = dbl m @ [0, 1] @ k),
      stringify_bundle = ref_stringify_bundle,
      parse_bundle = ref_parse_bundle,
      stringify_card = ref_stringify_card,
      parse_card = ref_parse_card,
      stringify_profile = (\<lambda>d. ''p''),
      parse_profile = (\<lambda>s. Some sample_profile),
      stringify_meta = (\<lambda>m. ''meta''),
      max_arguments = 65536\<rparr>"


text \<open>A random source.\<close>

definition sample_rng :: entropy where
  "sample_rng i = of_nat i"

subsection \<open>ECDSA on a small curve\<close>

text \<open>
  The signature of the platform above binds the key by construction, which ECDSA does
  not. The second instance signs with ECDSA itself, on a curve small enough to compute
  on: \<open>y\<^sup>2 = x\<^sup>3 + 2x + 2\<close> over the integers modulo 17, whose 19 points are the
  multiples of \<open>G = (5, 1)\<close>. A point is a pair of coordinates, \<open>None\<close> is the point at
  infinity. The digest of a message is the sum of its bytes modulo 19, the nonce is
  taken from the next byte of the random source, a private key is one byte and a
  public key the two coordinates of its point. Signing does not start over when \<open>r\<close>
  or \<open>s\<close> is 0; verification rejects such a signature.
\<close>

type_synonym point = "(int \<times> int) option"

definition inv_mod :: "int \<Rightarrow> int \<Rightarrow> int" where
  "inv_mod m x = (x mod m) ^ nat (m - 2) mod m"

definition on_curve :: "point \<Rightarrow> bool" where
  "on_curve A =
     (case A of
        None \<Rightarrow> True
      | Some (x, y) \<Rightarrow>
          0 \<le> x \<and> x < 17 \<and> 0 \<le> y \<and> y < 17 \<and> (y * y) mod 17 = (x * x * x + 2 * x + 2) mod 17)"

fun pt_add :: "point \<Rightarrow> point \<Rightarrow> point" where
  "pt_add None B = B"
| "pt_add (Some A) None = Some A"
| "pt_add (Some (x1, y1)) (Some (x2, y2)) =
     (if x1 = x2 \<and> (y1 + y2) mod 17 = 0 then None
      else
        (let l = (if x1 = x2 then (3 * x1 * x1 + 2) * inv_mod 17 (2 * y1)
                  else (y2 - y1) * inv_mod 17 (x2 - x1)) mod 17;
             x3 = (l * l - x1 - x2) mod 17
         in Some (x3, (l * (x1 - x3) - y1) mod 17)))"

fun pt_mul :: "nat \<Rightarrow> point \<Rightarrow> point" where
  "pt_mul 0 A = None"
| "pt_mul (Suc k) A = pt_add A (pt_mul k A)"

definition curve_G :: point where
  "curve_G = Some (5, 1)"

definition toy_digest :: "ArrayBuffer \<Rightarrow> int" where
  "toy_digest m = int (sum_list (map unat m)) mod 19"

definition ec_sign :: "ArrayBuffer \<Rightarrow> ArrayBuffer \<Rightarrow> entropy \<Rightarrow> ArrayBuffer \<times> entropy" where
  "ec_sign key m rng =
     (case key of
        [db] \<Rightarrow>
          (let d = int (unat db);
               k = 1 + unat (rng 0) mod 18;
               r = (case pt_mul k curve_G of None \<Rightarrow> 0 | Some (x, y) \<Rightarrow> x mod 19);
               s = (inv_mod 19 (int k) * (toy_digest m + r * d)) mod 19
           in ([of_int r, of_int s], \<lambda>i. rng (i + 1)))
      | _ \<Rightarrow> ([], rng))"

definition ec_verify :: "ArrayBuffer \<Rightarrow> ArrayBuffer \<Rightarrow> ArrayBuffer \<Rightarrow> bool" where
  "ec_verify key sg m =
     (case key of
        [qx, qy] \<Rightarrow>
          (case sg of
             [rb, sb] \<Rightarrow>
               (let Q = Some (int (unat qx), int (unat qy));
                    r = int (unat rb);
                    s = int (unat sb)
                in on_curve Q \<and> 1 \<le> r \<and> r < 19 \<and> 1 \<le> s \<and> s < 19 \<and>
                   (let w = inv_mod 19 s;
                        u1 = (toy_digest m * w) mod 19;
                        u2 = (r * w) mod 19
                    in case pt_add (pt_mul (nat u1) curve_G) (pt_mul (nat u2) Q) of
                         None \<Rightarrow> False
                       | Some (x, y) \<Rightarrow> x mod 19 = r))
           | _ \<Rightarrow> False)
      | _ \<Rightarrow> False)"

text \<open>
  An account whose private key is 7 and whose public key is the point \<open>7G = (0, 6)\<close>,
  the card that \<^verbatim>\<open>createProfileCard\<close> makes for it with the nonce 10, whose signature
  is \<open>(r, s) = (7, 18)\<close>, and a second public key, the point \<open>18G = (5, 16)\<close>. The
  second key is \<open>r\<^sup>-\<^sup>1(s(-R) - zG)\<close> for the point \<open>R = 10G\<close> of the nonce and the
  digest \<open>z\<close> of the signed data, as it can be computed from any ECDSA signature.
\<close>

definition ec_account :: AccountSettings where
  "ec_account =
     sample_account
       \<lparr>acc_privateKey := JStr [char_of (7::nat)],
        acc_publicKey := JStr [char_of (0::nat), char_of (6::nat)]\<rparr>"

definition ec_card :: SignedProfileCard where
  "ec_card =
     \<lparr>card_v = ''wpc1'', card_publicKey = JStr [char_of (0::nat), char_of (6::nat)],
      card_data = ''p'', card_sig = [char_of (7::nat), char_of (18::nat)]\<rparr>"

definition second_key :: jval where
  "second_key = JStr [char_of (5::nat), char_of (16::nat)]"

definition ec_stringify_card :: "SignedProfileCard \<Rightarrow> string" where
  "ec_stringify_card c =
     (if card_publicKey c = JStr [char_of (0::nat), char_of (6::nat)] then ''card''
      else ''second key'')"

definition ec_parse_card :: "string \<Rightarrow> SignedProfileCard option" where
  "ec_parse_card s =
     (if s = ''card'' then Some ec_card
      else if s = ''second key'' then Some (ec_card\<lparr>card_publicKey := second_key\<rparr>)
      else None)"

definition ec_platform :: "ArrayBuffer platform" where
  "ec_platform =
     ref_platform
       \<lparr>ecdsa_sign := ec_sign, ecdsa_verify := ec_verify,
        stringify_card := ec_stringify_card, parse_card := ec_parse_card\<rparr>"

section \<open>Bytes and characters\<close>

lemma unat_of_char: "unat (of_char c :: byte) = of_char c"
proof -
  have "(of_char c :: byte) = of_nat (of_char c)"
    by (simp add: of_nat_of_char)
  then have "unat (of_char c :: byte) = (of_char c :: nat) mod 256"
    by (simp add: unat_of_nat)
  then show ?thesis by simp
qed

lemma fromCharCode_charCodeAt: "fromCharCode (charCodeAt c) = c"
  by (simp add: fromCharCode_def charCodeAt_def unat_of_char)

lemma charCodeAt_fromCharCode: "charCodeAt (fromCharCode b) = b"
proof -
  have a: "(of_char (char_of (unat b)) :: nat) = unat b"
    using unsigned_less[of b, where ?'a = nat] by simp
  have "(of_char (char_of (unat b)) :: byte) = of_nat (of_char (char_of (unat b)))"
    by (simp only: of_nat_of_char)
  also have "\<dots> = of_nat (unat b)"
    by (simp only: a)
  finally show ?thesis
    by (simp add: fromCharCode_def charCodeAt_def)
qed

lemma map_fromCharCode_inj: "map fromCharCode a = map fromCharCode b \<Longrightarrow> a = b"
proof -
  assume "map fromCharCode a = map fromCharCode b"
  then have "map charCodeAt (map fromCharCode a) = map charCodeAt (map fromCharCode b)"
    by simp
  then show "a = b"
    by (simp add: comp_def charCodeAt_fromCharCode)
qed

lemma foldl_snoc_map: "foldl (\<lambda>acc b. acc @ [f b]) pre xs = pre @ map f xs"
  by (induction xs arbitrary: pre) auto

lemma arrayBufferToBase64_eq: "arrayBufferToBase64 P buf = btoa P (map fromCharCode buf)"
  by (simp add: arrayBufferToBase64_def foldl_snoc_map)

lemma dropWhile_fixed: "xs = [] \<or> \<not> Q (hd xs) \<Longrightarrow> dropWhile Q xs = xs"
  by (cases xs) auto

section \<open>The instance meets the assumptions\<close>

lemma undbl_dbl: "undbl (dbl m @ 0 # 1 # t) = m"
  by (induction m) auto

lemma dbl_unique: "dbl a @ 0 # 1 # t = dbl a' @ 0 # 1 # t' \<Longrightarrow> a = a' \<and> t = t'"
proof (induction a arbitrary: a')
  case Nil
  then show ?case by (cases a') auto
next
  case (Cons x xs)
  then show ?case by (cases a') auto
qed

lemma dbl_flip:
  "length m = length m' \<Longrightarrow> i < length (dbl m @ R) \<Longrightarrow> (dbl m @ R)[i := b] = dbl m' @ R
     \<Longrightarrow> b = (dbl m @ R) ! i"
proof (induction m m' arbitrary: i rule: list_induct2)
  case Nil
  then show ?case by (metis append_Nil dbl.simps(1) nth_list_update_eq)
next
  case (Cons x xs y ys)
  show ?case
  proof (cases i)
    case 0
    with Cons.prems show ?thesis by simp
  next
    case (Suc j)
    show ?thesis
    proof (cases j)
      case 0
      with Suc Cons.prems show ?thesis by simp
    next
      case (Suc k)
      with \<open>i = Suc j\<close> Cons.prems Cons.IH[of k] show ?thesis by simp
    qed
  qed
qed

lemma dbl_prefix:
  "take n (dbl m @ 0 # 1 # t) = dbl m' @ 0 # 1 # t \<Longrightarrow> length (dbl m @ 0 # 1 # t) \<le> n"
proof (induction m arbitrary: n m')
  case Nil
  have "length (take n (0 # 1 # t)) = length (dbl m' @ 0 # 1 # t)"
    using Nil by simp
  then show ?case by simp
next
  case (Cons x xs)
  show ?case
  proof (cases n)
    case 0
    with Cons.prems show ?thesis by simp
  next
    case (Suc j)
    show ?thesis
    proof (cases j)
      case 0
      with Suc Cons.prems show ?thesis by (cases m') auto
    next
      case (Suc k)
      with \<open>n = Suc j\<close> Cons.prems Cons.IH[of k] show ?thesis by (cases m') auto
    qed
  qed
qed

lemma length_dbl: "length (dbl m) = 2 * length m"
  by (induction m) auto

lemma ref_correct: "ref_decrypt k iv (ref_encrypt k iv m) = Some m"
  by (simp add: ref_decrypt_def ref_encrypt_def  undbl_dbl)

lemma ref_genuine: "ref_decrypt k iv c = Some m \<Longrightarrow> c = ref_encrypt k iv m"
  by (auto simp: ref_decrypt_def Let_def split: if_splits)

lemma ref_inj: "ref_encrypt k iv m = ref_encrypt k' iv' m' \<Longrightarrow> k = k' \<and> iv = iv' \<and> m = m'"
  unfolding ref_encrypt_def 
  using dbl_unique[of m "dbl k @ [0,1] @ iv" m' "dbl k' @ [0,1] @ iv'"] dbl_unique[of k iv k' iv']
  by auto

lemma ref_flip:
  assumes "i < length (ref_encrypt k iv m)" "b \<noteq> ref_encrypt k iv m ! i"
  shows "(ref_encrypt k iv m)[i := b] \<noteq> ref_encrypt k iv m'"
proof
  assume eq: "(ref_encrypt k iv m)[i := b] = ref_encrypt k iv m'"
  then have "length (ref_encrypt k iv m) = length (ref_encrypt k iv m')"
    by (metis length_list_update)
  then have "length m = length m'"
    by (simp add: ref_encrypt_def length_dbl)
  from dbl_flip[OF this, of i "[0, 1] @ dbl k @ [0, 1] @ iv" b] assms eq show False
    by (simp add: ref_encrypt_def)
qed

lemma ref_prefix:
  assumes "n < length (ref_encrypt k iv m)"
  shows "take n (ref_encrypt k iv m) \<noteq> ref_encrypt k iv m'"
  using dbl_prefix[of n m "dbl k @ [0,1] @ iv" m'] assms
  by (auto simp: ref_encrypt_def )


lemma ref_sel:
  "utf8_encode ref_platform = map charCodeAt"
  "utf8_decode ref_platform = map fromCharCode"
  "btoa ref_platform = (\<lambda>s. s)"
  "atob ref_platform = Some"
  "sha256 ref_platform = (\<lambda>d. d)"
  "pbkdf2_hmac ref_platform = (\<lambda>k salt n. k @ salt)"
  "aes_gcm_encrypt ref_platform = ref_encrypt"
  "aes_gcm_decrypt ref_platform = ref_decrypt"
  "importKey_sign ref_platform = ref_importKey"
  "importKey_verify ref_platform = ref_importKey"
  "ecdsa_sign ref_platform = (\<lambda>k m rng. (dbl m @ [0, 1] @ k, rng))"
  "ecdsa_verify ref_platform = (\<lambda>k sg m. sg = dbl m @ [0, 1] @ k)"
  "stringify_bundle ref_platform = ref_stringify_bundle"
  "parse_bundle ref_platform = ref_parse_bundle"
  "stringify_card ref_platform = ref_stringify_card"
  "parse_card ref_platform = ref_parse_card"
  "stringify_profile ref_platform = (\<lambda>d. ''p'')"
  "parse_profile ref_platform = (\<lambda>s. Some sample_profile)"
  "stringify_meta ref_platform = (\<lambda>m. ''meta'')"
  "max_arguments ref_platform = 65536"
  by (simp_all add: ref_platform_def)

lemma ref_text_codec: "text_codec ref_platform"
  by (simp add: text_codec_def ref_platform_def comp_def fromCharCode_charCodeAt)

lemma ref_base64_codec: "base64_codec ref_platform"
  by (simp add: base64_codec_def ref_platform_def)

lemma ref_aead_correct: "aead_correct ref_platform"
  by (simp add: aead_correct_def ref_platform_def ref_correct)

lemma ref_aead_authentic: "aead_authentic ref_platform"
proof -
  have a: "ref_decrypt k' iv' (ref_encrypt k iv m) = None" if "k' \<noteq> k \<or> iv' \<noteq> iv" for k iv m k' iv'
  proof (cases "ref_decrypt k' iv' (ref_encrypt k iv m)")
    case (Some x)
    from ref_genuine[OF this] ref_inj[of k iv m k' iv' x] that show ?thesis by auto
  qed simp
  have b: "ref_decrypt k iv ((ref_encrypt k iv m)[i := b]) = None"
    if "i < length (ref_encrypt k iv m)" "b \<noteq> ref_encrypt k iv m ! i" for k iv m i b
  proof (cases "ref_decrypt k iv ((ref_encrypt k iv m)[i := b])")
    case (Some x)
    from ref_genuine[OF this] ref_flip[OF that, of x] show ?thesis by simp
  qed simp
  have c: "ref_decrypt k iv (take n (ref_encrypt k iv m)) = None"
    if "n < length (ref_encrypt k iv m)" for k iv m n
  proof (cases "ref_decrypt k iv (take n (ref_encrypt k iv m))")
    case (Some x)
    from ref_genuine[OF this] ref_prefix[OF that, of x] show ?thesis by simp
  qed simp
  have d: "ref_decrypt k iv [] = None" for k iv
    by (simp add: ref_decrypt_def ref_encrypt_def)
  show ?thesis
    unfolding aead_authentic_def by (simp add: ref_platform_def a b c d)
qed


lemma ref_hash_collision_free: "hash_collision_free ref_platform"
  by (simp add: hash_collision_free_def ref_platform_def)

lemma ref_signature_binds_message: "signature_binds_message ref_platform pk"
proof -
  have "m = m'" if "sg = dbl m @ [0, 1] @ pk \<and> sg = dbl m' @ [0, 1] @ pk"
    for sg m m' :: ArrayBuffer
  proof -
    from that have "dbl m @ 0 # 1 # pk = dbl m' @ 0 # 1 # pk"
      by auto
    then show ?thesis
      using dbl_unique by blast
  qed
  then show ?thesis
    unfolding signature_binds_message_def ref_sel by blast
qed


text \<open>The platform with ECDSA differs in the signature and in the JSON of cards.\<close>

lemma ec_sel:
  "utf8_encode ec_platform = map charCodeAt"
  "utf8_decode ec_platform = map fromCharCode"
  "btoa ec_platform = (\<lambda>s. s)"
  "atob ec_platform = Some"
  "importKey_sign ec_platform = ref_importKey"
  "importKey_verify ec_platform = ref_importKey"
  "ecdsa_sign ec_platform = ec_sign"
  "ecdsa_verify ec_platform = ec_verify"
  "stringify_card ec_platform = ec_stringify_card"
  "parse_card ec_platform = ec_parse_card"
  "stringify_profile ec_platform = (\<lambda>d. ''p'')"
  "parse_profile ec_platform = (\<lambda>s. Some sample_profile)"
  by (simp_all add: ec_platform_def ref_sel)

lemma ec_codecs: "text_codec ec_platform" "base64_codec ec_platform"
  using ref_text_codec ref_base64_codec
  by (simp_all add: ec_platform_def text_codec_def base64_codec_def)

section \<open>Normalisation of security answers\<close>

lemma of_char_lower: "isUpperCase c \<Longrightarrow> (of_char (toLowerCaseChar c) :: nat) = of_char c + 32"
  by (auto simp: isUpperCase_def toLowerCaseChar_def Let_def)

lemma isWhiteSpace_lower: "isWhiteSpace (toLowerCaseChar c) = isWhiteSpace c"
proof (cases "isUpperCase c")
  case True
  then show ?thesis
    using of_char_lower[of c] by (auto simp: isWhiteSpace_def isUpperCase_def Let_def)
next
  case False
  then show ?thesis by (simp add: toLowerCaseChar_def)
qed

lemma lower_not_upper: "\<not> isUpperCase (toLowerCaseChar c)"
proof (cases "isUpperCase c")
  case True
  then show ?thesis
    using of_char_lower[of c] by (auto simp: isUpperCase_def Let_def)
next
  case False
  then show ?thesis by (simp add: toLowerCaseChar_def)
qed

lemma toLowerCaseChar_idem: "toLowerCaseChar (toLowerCaseChar c) = toLowerCaseChar c"
  using lower_not_upper[of c] by (simp add: toLowerCaseChar_def[of "toLowerCaseChar c"])

lemma toLowerCase_idem: "toLowerCase (toLowerCase s) = toLowerCase s"
  by (simp add: toLowerCase_def toLowerCaseChar_idem)

lemma dropWhile_toLowerCase:
  "dropWhile isWhiteSpace (toLowerCase s) = toLowerCase (dropWhile isWhiteSpace s)"
  by (simp add: toLowerCase_def dropWhile_map comp_def isWhiteSpace_lower)

lemma rev_toLowerCase: "rev (toLowerCase s) = toLowerCase (rev s)"
  by (simp add: toLowerCase_def rev_map)

lemma trim_toLowerCase: "trim (toLowerCase s) = toLowerCase (trim s)"
  by (simp add: trim_def dropWhile_toLowerCase rev_toLowerCase)

lemma trim_ends:
  "trim s = [] \<or> (\<not> isWhiteSpace (hd (trim s)) \<and> \<not> isWhiteSpace (last (trim s)))"
  by (metis append_is_Nil_conv hd_dropWhile last_appendR last_rev
    rev.simps(1) rev_rev_ident takeWhile_dropWhile_id trim_def)

lemma trim_idem: "trim (trim s) = trim s"
proof -
  have a: "dropWhile isWhiteSpace (trim s) = trim s"
    using trim_ends[of s] by (auto intro: dropWhile_fixed)
  have "rev (trim s) = [] \<or> \<not> isWhiteSpace (hd (rev (trim s)))"
    using trim_ends[of s] by (auto simp: hd_rev)
  then have b: "dropWhile isWhiteSpace (rev (trim s)) = rev (trim s)"
    by (rule dropWhile_fixed)
  show ?thesis
    unfolding trim_def[of "trim s"] a b by simp
qed

lemma normalise_idem: "toLowerCase (trim (toLowerCase (trim s))) = toLowerCase (trim s)"
  by (simp add: trim_toLowerCase trim_idem toLowerCase_idem)

lemma hashText_eq:
  "hashText P s = btoa P (map fromCharCode (sha256 P (utf8_encode P (toLowerCase (trim s)))))"
  by (simp add: hashText_def arrayBufferToBase64_eq)

lemma btoa_inj: "base64_codec P \<Longrightarrow> btoa P a = btoa P b \<Longrightarrow> a = b"
  unfolding base64_codec_def by (metis option.inject)

lemma utf8_encode_inj: "text_codec P \<Longrightarrow> utf8_encode P s = utf8_encode P s' \<Longrightarrow> s = s'"
  unfolding text_codec_def by metis

lemma hashText_tells_apart:
  assumes "text_codec P" "base64_codec P" "hash_collision_free P"
    and "hashText P a = hashText P b"
  shows "toLowerCase (trim a) = toLowerCase (trim b)"
proof -
  have "map fromCharCode (sha256 P (utf8_encode P (toLowerCase (trim a)))) =
        map fromCharCode (sha256 P (utf8_encode P (toLowerCase (trim b))))"
    using assms(4) unfolding hashText_eq by (rule btoa_inj[OF assms(2)])
  then have "sha256 P (utf8_encode P (toLowerCase (trim a))) =
             sha256 P (utf8_encode P (toLowerCase (trim b)))"
    by (rule map_fromCharCode_inj)
  then have "utf8_encode P (toLowerCase (trim a)) = utf8_encode P (toLowerCase (trim b))"
    using assms(3) unfolding hash_collision_free_def by blast
  then show ?thesis
    by (rule utf8_encode_inj[OF assms(1)])
qed

lemma sample_normalised:
  "toLowerCase (trim ''Rex'') = ''rex''"
  "toLowerCase (trim ''  rex  '') = ''rex''"
  "toLowerCase (trim ''  paris  '') = ''paris''"
  "toLowerCase (trim ''London'') = ''london''"
  "toLowerCase (trim ''Max'') = ''max''"
  by (simp_all add: trim_def isWhiteSpace_def toLowerCase_def toLowerCaseChar_def
      isUpperCase_def char_of_eq_iff)

text \<open>
  Claim C8. \<^verbatim>\<open>hashText\<close> trims and lower-cases its input and then hashes it: its result
  is the base64 text of the SHA-256 digest of the UTF-8 encoding of the input trimmed
  and lower-cased. So the hash of any string is the hash of the string trimmed and
  lower-cased, and the answers "Rex" and "  rex  " have the same hash, whatever the
  encoder, the digest and \<^verbatim>\<open>btoa\<close> are. Nothing else of the input is forgotten: when
  SHA-256 has no collisions (and \<^verbatim>\<open>TextDecoder\<close> inverts \<^verbatim>\<open>TextEncoder\<close>, \<^verbatim>\<open>atob\<close>
  inverts \<^verbatim>\<open>btoa\<close>), two answers have the same hash only if they are equal once trimmed
  and lower-cased. Strings are those of the model, of code units below 256, on which
  \<^verbatim>\<open>trim\<close> and \<^verbatim>\<open>toLowerCase\<close> are written out in full.
\<close>

theorem hashText_normalised:
  "hashText P s =
     btoa P (map fromCharCode (sha256 P (utf8_encode P (toLowerCase (trim s))))) \<and>
   hashText P s = hashText P (toLowerCase (trim s)) \<and>
   hashText P ''Rex'' = hashText P ''  rex  '' \<and>
   (text_codec P \<and> base64_codec P \<and> hash_collision_free P \<longrightarrow>
      (\<forall>a b. hashText P a = hashText P b \<longleftrightarrow>
         toLowerCase (trim a) = toLowerCase (trim b)))"
proof (intro conjI impI allI)
  show "hashText P s =
     btoa P (map fromCharCode (sha256 P (utf8_encode P (toLowerCase (trim s)))))"
    by (rule hashText_eq)
  show "hashText P s = hashText P (toLowerCase (trim s))"
    by (simp add: hashText_eq normalise_idem)
  show "hashText P ''Rex'' = hashText P ''  rex  ''"
    by (simp only: hashText_eq sample_normalised)
next
  fix a b
  assume h: "text_codec P \<and> base64_codec P \<and> hash_collision_free P"
  show "hashText P a = hashText P b \<longleftrightarrow> toLowerCase (trim a) = toLowerCase (trim b)"
  proof
    assume "hashText P a = hashText P b"
    with h show "toLowerCase (trim a) = toLowerCase (trim b)"
      by (intro hashText_tells_apart[of P a b]) simp_all
  next
    assume "toLowerCase (trim a) = toLowerCase (trim b)"
    then show "hashText P a = hashText P b"
      by (simp only: hashText_eq)
  qed
qed

theorem hashText_normalised_witness:
  "hashText ref_platform ''Rex'' = ''rex'' \<and>
   hashText ref_platform ''  rex  '' = ''rex'' \<and>
   hashText ref_platform ''Rex'' \<noteq> hashText ref_platform ''Max''"
proof -
  note T = hashText_normalised[of ref_platform]
  have h: "text_codec ref_platform \<and> base64_codec ref_platform \<and> hash_collision_free ref_platform"
    using ref_text_codec ref_base64_codec ref_hash_collision_free by (intro conjI)
  have a: "hashText ref_platform ''Rex'' = ''rex''"
    using conjunct1[OF T, of "''Rex''"]
    by (simp add: ref_sel sample_normalised comp_def fromCharCode_charCodeAt)
  have b: "hashText ref_platform ''  rex  '' = ''rex''"
    using conjunct1[OF T, of "''  rex  ''"]
    by (simp add: ref_sel sample_normalised comp_def fromCharCode_charCodeAt)
  have "toLowerCase (trim ''Rex'') \<noteq> toLowerCase (trim ''Max'')"
    by (simp add: sample_normalised)
  then have c: "hashText ref_platform ''Rex'' \<noteq> hashText ref_platform ''Max''"
    using conjunct2[OF conjunct2[OF conjunct2[OF T]], rule_format, OF h, of "''Rex''" "''Max''"]
    by blast
  from a b c show ?thesis
    by (intro conjI)
qed

section \<open>Sealing and opening the vault\<close>

lemma map_shift_upt: "map (\<lambda>i. f (i + n)) [0..<m] = map f [n..<n + m]"
proof -
  have "map f [n..<n + m] = map f (map (\<lambda>i. i + n) [0..<m])"
    by (simp add: map_add_upt add.commute)
  then show ?thesis by (simp add: comp_def)
qed

lemma length_drawn [simp]: "length (drawn_salt rng) = 16" "length (drawn_iv rng) = 12"
  by (simp_all add: drawn_salt_def drawn_iv_def)

lemma encryptForFile_eq:
  "encryptForFile P rng B pw =
     (drawn_salt rng @ drawn_iv rng @
        aes_gcm_encrypt P (getEncryptionKey P pw (drawn_salt rng)) (drawn_iv rng)
          (utf8_encode P (stringify_bundle P B)),
      \<lambda>i. rng (i + 28))"
proof -
  have "map (\<lambda>i. rng (i + 16)) [0..<12] = map rng [16..<28]"
    using map_shift_upt[of rng 16 12] by simp
  then show ?thesis
    by (simp add: encryptForFile_def getRandomValues_def Let_def add.assoc
        drawn_salt_def drawn_iv_def)
qed

lemma slice_salt: "length salt = 16 \<Longrightarrow> slice_list 0 16 (salt @ rest) = salt"
  by (simp add: slice_list_def)

lemma slice_iv: "length salt = 16 \<Longrightarrow> length iv = 12 \<Longrightarrow> slice_list 16 28 (salt @ iv @ rest) = iv"
  by (simp add: slice_list_def)

lemma drop_data: "length salt = 16 \<Longrightarrow> length iv = 12 \<Longrightarrow> drop 28 (salt @ iv @ rest) = rest"
  by simp

lemma decryptFromFile_try_layout:
  assumes "length salt = 16" "length iv = 12"
  shows "decryptFromFile_try P (salt @ iv @ c) pw =
     (case aes_gcm_decrypt P (getEncryptionKey P pw salt) iv c of
        None \<Rightarrow> Inl OperationError
      | Some d \<Rightarrow>
          (case parse_bundle P (utf8_decode P d) of
             None \<Rightarrow> Inl SyntaxError
           | Some bundle \<Rightarrow> Inr bundle))"
  using assms by (simp add: decryptFromFile_try_def slice_salt slice_iv)



lemma decrypt_sealed:
  assumes "aead_correct P" "text_codec P"
  shows "decryptFromFile P (fst (encryptForFile P rng B pw)) pw =
     (case parse_bundle P (stringify_bundle P B) of
        None \<Rightarrow> Inl (Error decryption_failed)
      | Some B' \<Rightarrow> Inr B')"
  using assms
  by (simp add: encryptForFile_eq decryptFromFile_def decryptFromFile_try_layout
      aead_correct_def text_codec_def split: option.splits)

text \<open>
  Claim C1. Opening a sealed bundle with the password that sealed it returns the bundle
  as JSON carries it: if \<^verbatim>\<open>JSON.parse(JSON.stringify(B))\<close> is \<open>B'\<close>, then
  \<^verbatim>\<open>decryptFromFile(encryptForFile(B, P), P)\<close> is \<open>B'\<close>, for every bundle, every password and
  every state of the random source; it is \<open>B\<close> itself when JSON carries \<open>B\<close> unchanged.
  AES-GCM is assumed to decrypt what it encrypted, and \<^verbatim>\<open>TextDecoder\<close> to invert
  \<^verbatim>\<open>TextEncoder\<close>.
\<close>

theorem vault_round_trip:
  assumes "aead_correct P" and "text_codec P"
    and "parse_bundle P (stringify_bundle P B) = Some B'"
  shows "decryptFromFile P (fst (encryptForFile P rng B pw)) pw = Inr B'"
  using decrypt_sealed[OF assms(1,2), of rng B pw] assms(3) by simp

lemma ref_json_current:
  "parse_bundle ref_platform (stringify_bundle ref_platform (sample_bundle (Some 7))) =
     Some (sample_bundle (Some 7))"
  by (simp add: ref_platform_def ref_stringify_bundle_def ref_parse_bundle_def sample_bundle_def)

theorem vault_round_trip_witness:
  "decryptFromFile ref_platform
     (fst (encryptForFile ref_platform sample_rng (sample_bundle (Some 7)) ''CorrectHorse1''))
     ''CorrectHorse1'' = Inr (sample_bundle (Some 7))"
  using vault_round_trip[OF ref_aead_correct ref_text_codec ref_json_current] .

lemma sealed_parts:
  "slice_list 0 16 (fst (encryptForFile P rng B pw)) = drawn_salt rng"
  "slice_list 16 28 (fst (encryptForFile P rng B pw)) = drawn_iv rng"
  "drop 28 (fst (encryptForFile P rng B pw)) =
     aes_gcm_encrypt P (getEncryptionKey P pw (drawn_salt rng)) (drawn_iv rng)
       (utf8_encode P (stringify_bundle P B))"
  by (simp_all add: encryptForFile_eq slice_salt slice_iv)


lemma ciphertexts_differ:
  assumes "aead_correct P" "aead_authentic P" "k' \<noteq> k \<or> iv' \<noteq> iv"
  shows "aes_gcm_encrypt P k iv m \<noteq> aes_gcm_encrypt P k' iv' m'"
proof
  assume "aes_gcm_encrypt P k iv m = aes_gcm_encrypt P k' iv' m'"
  then have "aes_gcm_decrypt P k' iv' (aes_gcm_encrypt P k iv m) = Some m'"
    using assms(1) by (simp add: aead_correct_def)
  moreover have "aes_gcm_decrypt P k' iv' (aes_gcm_encrypt P k iv m) = None"
    using assms(2,3) unfolding aead_authentic_def by blast
  ultimately show False by simp
qed

subsection \<open>Two invocations\<close>

lemma map_shift_range: "map (\<lambda>i. f (i + n)) [a..<b] = map f [a + n..<b + n]"
  by (rule nth_equalityI) (simp_all add: ac_simps)

lemma drawn_shifted:
  "drawn_salt (\<lambda>i. rng (i + n)) = map rng [n..<n + 16]"
  "drawn_iv (\<lambda>i. rng (i + n)) = map rng [n + 16..<n + 28]"
  using map_shift_range[of rng n 0 16] map_shift_range[of rng n 16 28]
  by (simp_all only: drawn_salt_def drawn_iv_def add.commute[of _ n] add_0_right)

lemma blocks_differ:
  assumes "no_repeated_block N rng" "i < j" "j + 12 \<le> N"
  shows "map rng [i..<i + 12] \<noteq> map rng [j..<j + 12]"
  using assms unfolding no_repeated_block_def by blast

lemma longer_blocks_differ:
  assumes "map rng [i..<i + 12] \<noteq> map rng [j..<j + 12]"
  shows "map rng [i..<i + 16] \<noteq> map rng [j..<j + 16]"
proof
  assume eq: "map rng [i..<i + 16] = map rng [j..<j + 16]"
  have "take 12 (map rng [i..<i + 16]) = map rng [i..<i + 12]" for i
    by (simp add: take_map take_upt)
  with eq have "map rng [i..<i + 12] = map rng [j..<j + 12]"
    by metis
  with assms show False by simp
qed

text \<open>
  Claim C4. Every call of \<^verbatim>\<open>encryptForFile\<close> takes its salt and its nonce from the random
  source and from nowhere else: the first 16 bytes of the output are the next 16 bytes
  of the source, the following 12 the next 12, and the call leaves the source 28 bytes
  further. A second invocation, made after the first and after any number \<open>m\<close> of
  further bytes have been drawn, therefore reads bytes that the first did not read
  (the bytes from \<open>28 + m\<close> on), whatever the bundle and the password, the same ones
  included. With a source that does not hand out the same block of bytes twice, the two
  outputs differ in the salt, in the nonce and as a whole, and in the ciphertext for an
  AES-GCM that rejects a ciphertext under another nonce.
\<close>

theorem salt_iv_fresh:
  assumes "encryptForFile P rng B pw = (out1, rng1)"
    and "encryptForFile P (snd (getRandomValues m rng1)) B pw = (out2, rng2)"
  shows "slice_list 0 16 out1 = fst (getRandomValues 16 rng) \<and>
         slice_list 16 28 out1 = fst (getRandomValues 12 (snd (getRandomValues 16 rng))) \<and>
         rng1 = snd (getRandomValues 28 rng) \<and>
         slice_list 0 16 out1 = map rng [0..<16] \<and>
         slice_list 16 28 out1 = map rng [16..<28] \<and>
         slice_list 0 16 out2 = map rng [28 + m..<44 + m] \<and>
         slice_list 16 28 out2 = map rng [44 + m..<56 + m] \<and>
         (no_repeated_block (56 + m) rng \<longrightarrow>
            slice_list 0 16 out1 \<noteq> slice_list 0 16 out2 \<and>
            slice_list 16 28 out1 \<noteq> slice_list 16 28 out2 \<and>
            out1 \<noteq> out2 \<and>
            (aead_correct P \<and> aead_authentic P \<longrightarrow> drop 28 out1 \<noteq> drop 28 out2))"
proof -
  have out1: "out1 = fst (encryptForFile P rng B pw)"
    and rng1: "rng1 = (\<lambda>i. rng (i + 28))"
    using assms(1) by (simp_all add: encryptForFile_eq)
  have src2: "snd (getRandomValues m rng1) = (\<lambda>i. rng (i + (28 + m)))"
    by (simp add: getRandomValues_def rng1 add.assoc add.commute)
  have out2: "out2 = fst (encryptForFile P (\<lambda>i. rng (i + (28 + m))) B pw)"
    using assms(2) unfolding src2 by simp
  have a: "fst (getRandomValues 16 rng) = drawn_salt rng"
    by (simp add: getRandomValues_def drawn_salt_def)
  have b: "fst (getRandomValues 12 (snd (getRandomValues 16 rng))) = drawn_iv rng"
    using map_shift_upt[of rng 16 12] by (simp add: getRandomValues_def drawn_iv_def)
  have c: "rng1 = snd (getRandomValues 28 rng)"
    by (simp add: rng1 getRandomValues_def)
  have s1: "slice_list 0 16 out1 = map rng [0..<16]"
    and i1: "slice_list 16 28 out1 = map rng [16..<28]"
    unfolding out1 sealed_parts by (simp_all add: drawn_salt_def drawn_iv_def)
  have s2: "slice_list 0 16 out2 = map rng [28 + m..<44 + m]"
    and i2: "slice_list 16 28 out2 = map rng [44 + m..<56 + m]"
    unfolding out2 sealed_parts drawn_shifted by (simp_all add: add.commute)
  have fresh: "slice_list 0 16 out1 \<noteq> slice_list 0 16 out2 \<and>
            slice_list 16 28 out1 \<noteq> slice_list 16 28 out2 \<and>
            out1 \<noteq> out2 \<and>
            (aead_correct P \<and> aead_authentic P \<longrightarrow> drop 28 out1 \<noteq> drop 28 out2)"
    if nr: "no_repeated_block (56 + m) rng"
  proof -
    have "map rng [0..<0 + 12] \<noteq> map rng [28 + m..<28 + m + 12]"
      by (rule blocks_differ[OF nr]) simp_all
    then have "map rng [0..<0 + 16] \<noteq> map rng [28 + m..<28 + m + 16]"
      by (rule longer_blocks_differ)
    then have sd: "slice_list 0 16 out1 \<noteq> slice_list 0 16 out2"
      unfolding s1 s2 by (simp add: add.commute)
    have "map rng [16..<16 + 12] \<noteq> map rng [44 + m..<44 + m + 12]"
      by (rule blocks_differ[OF nr]) simp_all
    then have ivd: "slice_list 16 28 out1 \<noteq> slice_list 16 28 out2"
      unfolding i1 i2 by (simp add: add.commute)
    have ivd': "drawn_iv rng \<noteq> drawn_iv (\<lambda>i. rng (i + (28 + m)))"
      using ivd unfolding out1 out2 sealed_parts .
    have cd: "drop 28 out1 \<noteq> drop 28 out2" if "aead_correct P \<and> aead_authentic P"
      unfolding out1 out2 sealed_parts
      by (rule ciphertexts_differ) (use that ivd' in auto)
    from sd have od: "out1 \<noteq> out2"
      by auto
    from sd ivd od cd show ?thesis
      by blast
  qed
  show ?thesis
    using a b c s1 i1 s2 i2 fresh unfolding out1 sealed_parts
    by (intro conjI impI) simp_all
qed

lemma sample_rng_no_repeated_block: "no_repeated_block 56 sample_rng"
  unfolding no_repeated_block_def
proof (intro allI impI)
  fix i j :: nat
  assume h: "i < j \<and> j + 12 \<le> 56"
  show "map sample_rng [i..<i + 12] \<noteq> map sample_rng [j..<j + 12]"
  proof
    assume "map sample_rng [i..<i + 12] = map sample_rng [j..<j + 12]"
    then have "map sample_rng [i..<i + 12] ! 0 = map sample_rng [j..<j + 12] ! 0"
      by simp
    then have "(of_nat i :: byte) = of_nat j"
      by (simp add: sample_rng_def)
    then have "unat (of_nat i :: byte) = unat (of_nat j :: byte)"
      by simp
    moreover have "i < 256" "j < 256"
      using h by simp_all
    ultimately have "i = j"
      by (simp add: unat_of_nat)
    with h show False by simp
  qed
qed

theorem salt_iv_fresh_witness:
  "slice_list 0 16
     (fst (encryptForFile ref_platform sample_rng (sample_bundle (Some 7)) ''pw'')) \<noteq>
   slice_list 0 16
     (fst (encryptForFile ref_platform
        (snd (getRandomValues 0
           (snd (encryptForFile ref_platform sample_rng (sample_bundle (Some 7)) ''pw''))))
        (sample_bundle (Some 7)) ''pw'')) \<and>
   slice_list 16 28
     (fst (encryptForFile ref_platform sample_rng (sample_bundle (Some 7)) ''pw'')) \<noteq>
   slice_list 16 28
     (fst (encryptForFile ref_platform
        (snd (getRandomValues 0
           (snd (encryptForFile ref_platform sample_rng (sample_bundle (Some 7)) ''pw''))))
        (sample_bundle (Some 7)) ''pw'')) \<and>
   drop 28
     (fst (encryptForFile ref_platform sample_rng (sample_bundle (Some 7)) ''pw'')) \<noteq>
   drop 28
     (fst (encryptForFile ref_platform
        (snd (getRandomValues 0
           (snd (encryptForFile ref_platform sample_rng (sample_bundle (Some 7)) ''pw''))))
        (sample_bundle (Some 7)) ''pw'')) \<and>
   fst (encryptForFile ref_platform sample_rng (sample_bundle (Some 7)) ''pw'') \<noteq>
   fst (encryptForFile ref_platform
      (snd (getRandomValues 0
         (snd (encryptForFile ref_platform sample_rng (sample_bundle (Some 7)) ''pw''))))
      (sample_bundle (Some 7)) ''pw'')"
proof -
  have n: "no_repeated_block (56 + 0) sample_rng"
    using sample_rng_no_repeated_block by simp
  have ae: "aead_correct ref_platform \<and> aead_authentic ref_platform"
    using ref_aead_correct ref_aead_authentic by (intro conjI)
  note T = salt_iv_fresh[where P = ref_platform and B = "sample_bundle (Some 7)"
      and pw = "''pw''" and rng = sample_rng and m = 0,
      OF surjective_pairing surjective_pairing]
  note F = conjunct2[OF conjunct2[OF conjunct2[OF conjunct2[OF conjunct2[OF conjunct2[OF
      conjunct2[OF T]]]]]], rule_format, OF n]
  show ?thesis
    using conjunct1[OF F] conjunct1[OF conjunct2[OF F]]
      conjunct2[OF conjunct2[OF conjunct2[OF F]], rule_format, OF ae]
      conjunct1[OF conjunct2[OF conjunct2[OF F]]]
    by (intro conjI)
qed

subsection \<open>Rejection\<close>





subsection \<open>The key of a password\<close>

lemma getEncryptionKey_eq:
  "getEncryptionKey P pw salt = pbkdf2_hmac P (hmac_key P (utf8_encode P pw)) salt 200000"
  by (simp add: getEncryptionKey_def pbkdf2_def)

lemma same_block_same_key:
  "hmac_key P (utf8_encode P pw') = hmac_key P (utf8_encode P pw) \<Longrightarrow>
     getEncryptionKey P pw' salt = getEncryptionKey P pw salt"
  by (simp add: getEncryptionKey_eq)




















section \<open>Verification of profile cards\<close>

lemma base64_round_trip:
  "base64_codec P \<Longrightarrow> base64ToArrayBuffer P (arrayBufferToBase64 P buf) = Inr buf"
  by (simp add: base64_codec_def base64ToArrayBuffer_def arrayBufferToBase64_def
      foldl_snoc_map comp_def charCodeAt_fromCharCode)

lemma safe_base64_round_trip:
  "base64_codec P \<Longrightarrow> text_codec P \<Longrightarrow>
     safeBase64ToString P (safeStringToBase64 P s) = Inr s"
  by (simp add: safeBase64ToString_def safeStringToBase64_def base64_round_trip text_codec_def)

lemma decode_encode_card:
  "base64_codec P \<Longrightarrow> text_codec P \<Longrightarrow> parse_card P (stringify_card P c) = Some c \<Longrightarrow>
     decodeCard P (encodeCard P c) = Inr c"
  by (simp add: decodeCard_def encodeCard_def safe_base64_round_trip)

lemma verifyProfileCard_uniform:
  "verifyProfileCard P s = Inl e \<Longrightarrow> e = Error invalid_card"
  by (auto simp: verifyProfileCard_def split: sum.splits)

lemma verified_card:
  assumes "verifyProfileCard P s = Inr f"
  shows "\<exists>c pk sg. decodeCard P s = Inr c \<and> card_v c = ''wpc1'' \<and>
           importKey_verify P (card_publicKey c) = Some pk \<and>
           base64ToArrayBuffer P (card_sig c) = Inr sg \<and>
           ecdsa_verify P pk sg (utf8_encode P (card_data c))"
  using assms
  by (auto simp: verifyProfileCard_def verifyProfileCard_try_def Let_def
      split: sum.splits option.splits if_splits)

lemma unverified_card_rejected:
  assumes "decodeCard P s = Inr c"
    and "\<And>pk sg. importKey_verify P (card_publicKey c) = Some pk \<Longrightarrow>
           base64ToArrayBuffer P (card_sig c) = Inr sg \<Longrightarrow>
           \<not> ecdsa_verify P pk sg (utf8_encode P (card_data c))"
  shows "verifyProfileCard P s = Inl (Error invalid_card)"
  using assms
  by (auto simp: verifyProfileCard_def verifyProfileCard_try_def Let_def
      split: sum.splits option.splits if_splits)

text \<open>What \<^verbatim>\<open>verifyProfileCard\<close> returns once the signature has verified.\<close>

lemma signed_card_payload:
  assumes "decodeCard P s = Inr c" and "card_v c = ''wpc1''"
    and "importKey_verify P (card_publicKey c) = Some pk"
    and "base64ToArrayBuffer P (card_sig c) = Inr sg"
    and "ecdsa_verify P pk sg (utf8_encode P (card_data c))"
  shows "verifyProfileCard P s =
     (case safeBase64ToString P (card_data c) of
        Inl e \<Rightarrow> Inl (Error invalid_card)
      | Inr json \<Rightarrow>
          (case parse_profile P json of
             None \<Rightarrow> Inl (Error invalid_card)
           | Some profileData \<Rightarrow>
               Inr \<lparr>userId = userId profileData, username = username profileData,
                    avatarUrl = avatarUrl profileData, status = status profileData\<rparr>))"
  using assms
  by (simp add: verifyProfileCard_def verifyProfileCard_try_def Let_def
      split: sum.splits option.splits)

lemma substituted_key:
  assumes "text_codec P" and "base64_codec P"
    and "verifyProfileCard P cardString = Inr friend"
    and "decodeCard P cardString = Inr pcard"
    and "base64ToArrayBuffer P (card_sig pcard) = Inr sg"
    and "parse_card P (stringify_card P (pcard\<lparr>card_publicKey := k\<rparr>)) =
           Some (pcard\<lparr>card_publicKey := k\<rparr>)"
  shows "verifyProfileCard P (encodeCard P (pcard\<lparr>card_publicKey := k\<rparr>)) =
     (case importKey_verify P k of
        None \<Rightarrow> Inl (Error invalid_card)
      | Some pk' \<Rightarrow>
          if ecdsa_verify P pk' sg (utf8_encode P (card_data pcard)) then Inr friend
          else Inl (Error invalid_card))"
proof -
  obtain pk where orig: "card_v pcard = ''wpc1''"
    "importKey_verify P (card_publicKey pcard) = Some pk"
    "ecdsa_verify P pk sg (utf8_encode P (card_data pcard))"
    using verified_card[OF assms(3)] assms(4,5) by auto
  note payload = signed_card_payload[OF assms(4) orig(1,2) assms(5) orig(3)]
  have dec: "decodeCard P (encodeCard P (pcard\<lparr>card_publicKey := k\<rparr>)) =
      Inr (pcard\<lparr>card_publicKey := k\<rparr>)"
    by (rule decode_encode_card[OF assms(2,1,6)])
  show ?thesis
  proof (cases "importKey_verify P k")
    case None
    then have "verifyProfileCard P (encodeCard P (pcard\<lparr>card_publicKey := k\<rparr>)) =
        Inl (Error invalid_card)"
      by (intro unverified_card_rejected[OF dec]) simp
    with None show ?thesis by simp
  next
    case (Some pk')
    show ?thesis
    proof (cases "ecdsa_verify P pk' sg (utf8_encode P (card_data pcard))")
      case False
      then have "verifyProfileCard P (encodeCard P (pcard\<lparr>card_publicKey := k\<rparr>)) =
          Inl (Error invalid_card)"
        using Some assms(5) by (intro unverified_card_rejected[OF dec]) simp
      with Some False show ?thesis by simp
    next
      case True
      have "verifyProfileCard P (encodeCard P (pcard\<lparr>card_publicKey := k\<rparr>)) =
          verifyProfileCard P cardString"
        unfolding payload
        by (rule signed_card_payload[OF dec, of pk' sg, simplified])
           (use orig(1) Some assms(5) True in simp_all)
      with Some True assms(3) show ?thesis by simp
    qed
  qed
qed

lemma changed_data_rejected:
  assumes "text_codec P" and "base64_codec P"
    and "decodeCard P cardString = Inr pcard"
    and "importKey_verify P (card_publicKey pcard) = Some pk"
    and "base64ToArrayBuffer P (card_sig pcard) = Inr sg"
    and "ecdsa_verify P pk sg (utf8_encode P (card_data pcard))"
    and "signature_binds_message P pk"
    and "d \<noteq> card_data pcard"
    and "parse_card P (stringify_card P (pcard\<lparr>card_data := d\<rparr>)) = Some (pcard\<lparr>card_data := d\<rparr>)"
  shows "verifyProfileCard P (encodeCard P (pcard\<lparr>card_data := d\<rparr>)) = Inl (Error invalid_card)"
proof -
  have dec: "decodeCard P (encodeCard P (pcard\<lparr>card_data := d\<rparr>)) = Inr (pcard\<lparr>card_data := d\<rparr>)"
    by (rule decode_encode_card[OF assms(2,1,9)])
  show ?thesis
  proof (rule unverified_card_rejected[OF dec])
    fix pk' sg'
    assume "importKey_verify P (card_publicKey (pcard\<lparr>card_data := d\<rparr>)) = Some pk'"
      and "base64ToArrayBuffer P (card_sig (pcard\<lparr>card_data := d\<rparr>)) = Inr sg'"
    then have same: "pk' = pk" "sg' = sg"
      using assms(4,5) by simp_all
    show "\<not> ecdsa_verify P pk' sg' (utf8_encode P (card_data (pcard\<lparr>card_data := d\<rparr>)))"
    proof
      assume "ecdsa_verify P pk' sg' (utf8_encode P (card_data (pcard\<lparr>card_data := d\<rparr>)))"
      then have "ecdsa_verify P pk sg (utf8_encode P d)"
        using same by simp
      with assms(6,7) have "utf8_encode P d = utf8_encode P (card_data pcard)"
        unfolding signature_binds_message_def by blast
      then have "d = card_data pcard"
        by (rule utf8_encode_inj[OF assms(1)])
      with assms(8) show False by simp
    qed
  qed
qed

text \<open>
  Claim C5, as the code has it. \<^verbatim>\<open>verifyProfileCard\<close> returns a friend only for a card
  whose signature verifies, under the card's own public key, over the encoding of
  exactly the string in its \<^verbatim>\<open>data\<close> field; every failure is the one error and returns
  no field of the card. So when a card verifies (those made by \<^verbatim>\<open>createProfileCard\<close>
  among them), the same card with another \<^verbatim>\<open>data\<close> string and the signature kept is
  rejected, if under the key of the card a signature verifies for one message only.
  The same card with another public key and the signature kept is rejected when the
  key does not import or the signature does not verify under it, and accepted, with
  the friend of the original card, when the signature verifies under it: the key of
  the card is compared with nothing. JSON is assumed to carry the changed card
  unchanged.
\<close>

theorem profile_card_tamper_rejected:
  assumes "text_codec P" and "base64_codec P"
    and "verifyProfileCard P cardString = Inr friend"
    and "decodeCard P cardString = Inr pcard"
    and "importKey_verify P (card_publicKey pcard) = Some pk"
    and "base64ToArrayBuffer P (card_sig pcard) = Inr sg"
  shows "ecdsa_verify P pk sg (utf8_encode P (card_data pcard)) \<and>
         (signature_binds_message P pk \<longrightarrow>
            (\<forall>d. d \<noteq> card_data pcard \<and>
                 parse_card P (stringify_card P (pcard\<lparr>card_data := d\<rparr>)) =
                   Some (pcard\<lparr>card_data := d\<rparr>) \<longrightarrow>
               verifyProfileCard P (encodeCard P (pcard\<lparr>card_data := d\<rparr>)) =
                 Inl (Error invalid_card))) \<and>
         (\<forall>k. parse_card P (stringify_card P (pcard\<lparr>card_publicKey := k\<rparr>)) =
                Some (pcard\<lparr>card_publicKey := k\<rparr>) \<longrightarrow>
            verifyProfileCard P (encodeCard P (pcard\<lparr>card_publicKey := k\<rparr>)) =
              (case importKey_verify P k of
                 None \<Rightarrow> Inl (Error invalid_card)
               | Some pk' \<Rightarrow>
                   if ecdsa_verify P pk' sg (utf8_encode P (card_data pcard)) then Inr friend
                   else Inl (Error invalid_card))) \<and>
         (\<forall>s f. verifyProfileCard P s = Inr f \<longrightarrow>
            (\<exists>c pk sg. decodeCard P s = Inr c \<and> card_v c = ''wpc1'' \<and>
               importKey_verify P (card_publicKey c) = Some pk \<and>
               base64ToArrayBuffer P (card_sig c) = Inr sg \<and>
               ecdsa_verify P pk sg (utf8_encode P (card_data c)))) \<and>
         (\<forall>s e. verifyProfileCard P s = Inl e \<longrightarrow> e = Error invalid_card)"
proof (intro conjI allI impI)
  show orig: "ecdsa_verify P pk sg (utf8_encode P (card_data pcard))"
    using verified_card[OF assms(3)] assms(4,5,6) by auto
  {
    fix d
    assume "signature_binds_message P pk"
      and "d \<noteq> card_data pcard \<and>
        parse_card P (stringify_card P (pcard\<lparr>card_data := d\<rparr>)) = Some (pcard\<lparr>card_data := d\<rparr>)"
    then show "verifyProfileCard P (encodeCard P (pcard\<lparr>card_data := d\<rparr>)) =
        Inl (Error invalid_card)"
      by (intro changed_data_rejected[OF assms(1,2,4,5,6) orig]) simp_all
  }
  {
    fix k
    assume "parse_card P (stringify_card P (pcard\<lparr>card_publicKey := k\<rparr>)) =
        Some (pcard\<lparr>card_publicKey := k\<rparr>)"
    then show "verifyProfileCard P (encodeCard P (pcard\<lparr>card_publicKey := k\<rparr>)) =
        (case importKey_verify P k of
           None \<Rightarrow> Inl (Error invalid_card)
         | Some pk' \<Rightarrow>
             if ecdsa_verify P pk' sg (utf8_encode P (card_data pcard)) then Inr friend
             else Inl (Error invalid_card))"
      by (rule substituted_key[OF assms(1,2,3,4,6)])
  }
  {
    fix s f assume "verifyProfileCard P s = Inr f"
    then show "\<exists>c pk sg. decodeCard P s = Inr c \<and> card_v c = ''wpc1'' \<and>
               importKey_verify P (card_publicKey c) = Some pk \<and>
               base64ToArrayBuffer P (card_sig c) = Inr sg \<and>
               ecdsa_verify P pk sg (utf8_encode P (card_data c))"
      by (rule verified_card)
  }
  {
    fix s e assume "verifyProfileCard P s = Inl e"
    then show "e = Error invalid_card"
      by (rule verifyProfileCard_uniform)
  }
qed

lemma sample_card_sig:
  "base64ToArrayBuffer ref_platform (card_sig sample_card) =
     Inr (dbl (map charCodeAt ''p'') @ [0, 1] @ map charCodeAt ''k'')"
  by (simp add: base64ToArrayBuffer_def ref_sel sample_card_def comp_def
      charCodeAt_fromCharCode del: dbl.simps)

lemma created_sample_card:
  "createProfileCard ref_platform sample_rng sample_account =
     Inr (encodeCard ref_platform sample_card, sample_rng)"
  by (simp add: createProfileCard_def ref_sel ref_importKey_def sample_account_def
      sample_card_def safeStringToBase64_def arrayBufferToBase64_def foldl_snoc_map
      encodeCard_def Let_def comp_def fromCharCode_charCodeAt charCodeAt_fromCharCode)

lemma ref_json_card:
  "parse_card ref_platform (stringify_card ref_platform sample_card) = Some sample_card"
  "parse_card ref_platform (stringify_card ref_platform (sample_card\<lparr>card_data := ''q''\<rparr>)) =
     Some (sample_card\<lparr>card_data := ''q''\<rparr>)"
  "parse_card ref_platform (stringify_card ref_platform (sample_card\<lparr>card_publicKey := JStr ''j''\<rparr>)) =
     Some (sample_card\<lparr>card_publicKey := JStr ''j''\<rparr>)"
  by (simp_all add: ref_sel ref_stringify_card_def ref_parse_card_def sample_card_def)

lemma decoded_sample_card:
  "decodeCard ref_platform (encodeCard ref_platform sample_card) = Inr sample_card"
  by (rule decode_encode_card[OF ref_base64_codec ref_text_codec ref_json_card(1)])

lemma sample_card_key:
  "importKey_verify ref_platform (card_publicKey sample_card) = Some (map charCodeAt ''k'')"
  "importKey_verify ref_platform (JStr ''j'') = Some (map charCodeAt ''j'')"
  by (simp_all add: ref_sel ref_importKey_def sample_card_def)

lemma verified_sample_card:
  "verifyProfileCard ref_platform (encodeCard ref_platform sample_card) = Inr sample_profile"
proof -
  have a: "card_v sample_card = ''wpc1''" "card_data sample_card = ''p''"
    "card_publicKey sample_card = JStr ''k''"
    by (simp_all add: sample_card_def)
  have b: "importKey_verify ref_platform (JStr ''k'') = Some (map charCodeAt ''k'')"
    by (simp add: ref_sel ref_importKey_def)
  have d: "safeBase64ToString ref_platform ''p'' = Inr ''p''"
    by (simp add: safeBase64ToString_def base64ToArrayBuffer_def ref_sel comp_def
        fromCharCode_charCodeAt)
  have e: "parse_profile ref_platform ''p'' = Some sample_profile"
    by (simp add: ref_sel)
  show ?thesis
    unfolding verifyProfileCard_def verifyProfileCard_try_def decoded_sample_card
    by (simp add: a b d e sample_card_sig Let_def ref_sel(1,12))
qed

text \<open>The card signed with ECDSA on the small curve.\<close>

lemma charCodeAt_char_of: "n < 256 \<Longrightarrow> charCodeAt (char_of n) = of_nat n"
proof -
  assume "n < 256"
  then have "(of_char (char_of n) :: nat) = n"
    by simp
  moreover have "(of_char (char_of n) :: byte) = of_nat (of_char (char_of n))"
    by (simp only: of_nat_of_char)
  ultimately show ?thesis
    by (simp add: charCodeAt_def)
qed

lemma ec_keys:
  "importKey_sign ec_platform (acc_privateKey ec_account) = Some [7]"
  "importKey_verify ec_platform (card_publicKey ec_card) = Some [0, 6]"
  "importKey_verify ec_platform second_key = Some [5, 16]"
  by (simp_all add: ec_sel ref_importKey_def ec_account_def ec_card_def second_key_def
      charCodeAt_char_of)

lemma ec_signature:
  "fst (ec_sign [7] [112] (snd (getRandomValues 9 sample_rng))) = [7, 18]"
  "snd (ec_sign [7] [112] (snd (getRandomValues 9 sample_rng))) =
     snd (getRandomValues 10 sample_rng)"
proof -
  have r: "snd (getRandomValues 9 sample_rng) = (\<lambda>i. sample_rng (i + 9))"
    by (simp add: getRandomValues_def)
  show "fst (ec_sign [7] [112] (snd (getRandomValues 9 sample_rng))) = [7, 18]"
    unfolding r by code_simp
  show "snd (ec_sign [7] [112] (snd (getRandomValues 9 sample_rng))) =
     snd (getRandomValues 10 sample_rng)"
    by (simp add: ec_sign_def getRandomValues_def Let_def add.commute)
qed

lemma ec_verifies:
  "ec_verify [0, 6] [7, 18] [112]"
  "ec_verify [5, 16] [7, 18] [112]"
  by code_simp+

lemma ec_card_parts:
  "utf8_encode ec_platform (card_data ec_card) = [112]"
  "base64ToArrayBuffer ec_platform (card_sig ec_card) = Inr [7, 18]"
  "card_v ec_card = ''wpc1''"
  "safeStringToBase64 ec_platform ''p'' = ''p''"
proof -
  show "utf8_encode ec_platform (card_data ec_card) = [112]"
    by (simp add: ec_sel ec_card_def charCodeAt_def)
  show "base64ToArrayBuffer ec_platform (card_sig ec_card) = Inr [7, 18]"
    by (simp add: ec_sel ec_card_def base64ToArrayBuffer_def charCodeAt_char_of)
  show "card_v ec_card = ''wpc1''"
    by (simp add: ec_card_def)
  show "safeStringToBase64 ec_platform ''p'' = ''p''"
    by (simp add: safeStringToBase64_def arrayBufferToBase64_eq ec_sel comp_def
        fromCharCode_charCodeAt)
qed

lemma created_ec_card:
  "createProfileCard ec_platform (snd (getRandomValues 9 sample_rng)) ec_account =
     Inr (encodeCard ec_platform ec_card, snd (getRandomValues 10 sample_rng))"
proof -
  have sg: "ec_sign [7] [112] (snd (getRandomValues 9 sample_rng)) =
      ([7, 18], snd (getRandomValues 10 sample_rng))"
    using ec_signature by (simp add: prod_eq_iff)
  have b64: "arrayBufferToBase64 ec_platform [7, 18] = [char_of (7::nat), char_of (18::nat)]"
    by (simp add: arrayBufferToBase64_eq ec_sel fromCharCode_def)
  have enc: "utf8_encode ec_platform ''p'' = [112]"
    by (simp add: ec_sel charCodeAt_def)
  have f: "acc_userId ec_account = ''u1''" "acc_username ec_account = ''alice''"
    "acc_avatarUrl ec_account = ''a.png''" "acc_status ec_account = ''hello''"
    "acc_publicKey ec_account = JStr [char_of (0::nat), char_of (6::nat)]"
    by (simp_all add: ec_account_def sample_account_def)
  show ?thesis
    unfolding createProfileCard_def ec_keys(1)
    by (simp add: f Let_def ec_sel(7,11) ec_card_parts(4) enc sg b64 ec_card_def)
qed

lemma ec_json_card:
  "parse_card ec_platform (stringify_card ec_platform ec_card) = Some ec_card"
  "parse_card ec_platform (stringify_card ec_platform (ec_card\<lparr>card_publicKey := second_key\<rparr>)) =
     Some (ec_card\<lparr>card_publicKey := second_key\<rparr>)"
  by (simp_all add: ec_sel ec_stringify_card_def ec_parse_card_def ec_card_def second_key_def
      char_of_eq_iff)

lemma decoded_ec_card:
  "decodeCard ec_platform (encodeCard ec_platform ec_card) = Inr ec_card"
  "decodeCard ec_platform (encodeCard ec_platform (ec_card\<lparr>card_publicKey := second_key\<rparr>)) =
     Inr (ec_card\<lparr>card_publicKey := second_key\<rparr>)"
  by (rule decode_encode_card[OF ec_codecs(2,1)], rule ec_json_card)+

lemma ec_payload:
  "(case safeBase64ToString ec_platform (card_data ec_card) of
      Inl e \<Rightarrow> Inl (Error invalid_card)
    | Inr json \<Rightarrow>
        (case parse_profile ec_platform json of
           None \<Rightarrow> Inl (Error invalid_card)
         | Some profileData \<Rightarrow>
             Inr \<lparr>userId = userId profileData, username = username profileData,
                  avatarUrl = avatarUrl profileData, status = status profileData\<rparr>)) =
   Inr sample_profile"
  by (simp add: safeBase64ToString_def base64ToArrayBuffer_def ec_sel ec_card_def comp_def
      fromCharCode_charCodeAt sample_profile_def)

lemma verified_ec_card:
  "verifyProfileCard ec_platform (encodeCard ec_platform ec_card) = Inr sample_profile"
  using signed_card_payload[OF decoded_ec_card(1) ec_card_parts(3) ec_keys(2) ec_card_parts(2)]
    ec_verifies(1)
  by (simp only: ec_card_parts(1) ec_sel(8) ec_payload)

theorem profile_card_tamper_rejected_witness:
  "createProfileCard ref_platform sample_rng sample_account =
     Inr (encodeCard ref_platform sample_card, sample_rng) \<and>
   verifyProfileCard ref_platform (encodeCard ref_platform sample_card) = Inr sample_profile \<and>
   verifyProfileCard ref_platform (encodeCard ref_platform (sample_card\<lparr>card_data := ''q''\<rparr>)) =
     Inl (Error invalid_card) \<and>
   verifyProfileCard ref_platform
     (encodeCard ref_platform (sample_card\<lparr>card_publicKey := JStr ''j''\<rparr>)) =
     Inl (Error invalid_card) \<and>
   verifyProfileCard ec_platform
     (encodeCard ec_platform (ec_card\<lparr>card_publicKey := second_key\<rparr>)) = Inr sample_profile"
proof -
  have b: "''q'' \<noteq> card_data sample_card \<and>
    parse_card ref_platform (stringify_card ref_platform (sample_card\<lparr>card_data := ''q''\<rparr>)) =
      Some (sample_card\<lparr>card_data := ''q''\<rparr>)"
    using ref_json_card(2) by (simp add: sample_card_def)
  note T = profile_card_tamper_rejected[OF ref_text_codec ref_base64_codec
      verified_sample_card decoded_sample_card sample_card_key(1) sample_card_sig]
  note E = profile_card_tamper_rejected[OF ec_codecs verified_ec_card decoded_ec_card(1)
      ec_keys(2) ec_card_parts(2)]
  have c: "verifyProfileCard ref_platform
     (encodeCard ref_platform (sample_card\<lparr>card_publicKey := JStr ''j''\<rparr>)) =
     Inl (Error invalid_card)"
    using conjunct1[OF conjunct2[OF conjunct2[OF T]], rule_format, OF ref_json_card(3)]
    by (simp add: sample_card_key(2) ref_sel(1,12) sample_card_def charCodeAt_def)
  have d: "verifyProfileCard ec_platform
     (encodeCard ec_platform (ec_card\<lparr>card_publicKey := second_key\<rparr>)) = Inr sample_profile"
    using conjunct1[OF conjunct2[OF conjunct2[OF E]], rule_format, OF ec_json_card(2)]
      ec_verifies(2)
    by (simp add: ec_keys(3) ec_card_parts(1) ec_sel(8))
  show ?thesis
    using created_sample_card verified_sample_card
      conjunct1[OF conjunct2[OF T], rule_format, OF ref_signature_binds_message b]
      c d
    by (intro conjI)
qed

text \<open>
  A card made by \<^verbatim>\<open>createProfileCard\<close> verifies, and so does the same card with
  another public key in the place of its own and the signature kept: the friend of the
  original card is returned. The second key is computed from the signature; ECDSA
  verifies the signature under both.
\<close>

theorem substituted_key_accepted:
  "createProfileCard ec_platform (snd (getRandomValues 9 sample_rng)) ec_account =
     Inr (encodeCard ec_platform ec_card, snd (getRandomValues 10 sample_rng)) \<and>
   verifyProfileCard ec_platform (encodeCard ec_platform ec_card) = Inr sample_profile \<and>
   second_key \<noteq> card_publicKey ec_card \<and>
   importKey_verify ec_platform second_key \<noteq>
     importKey_verify ec_platform (card_publicKey ec_card) \<and>
   card_sig (ec_card\<lparr>card_publicKey := second_key\<rparr>) = card_sig ec_card \<and>
   card_data (ec_card\<lparr>card_publicKey := second_key\<rparr>) = card_data ec_card \<and>
   verifyProfileCard ec_platform
     (encodeCard ec_platform (ec_card\<lparr>card_publicKey := second_key\<rparr>)) = Inr sample_profile"
proof -
  have a: "second_key \<noteq> card_publicKey ec_card"
    by (simp add: second_key_def ec_card_def char_of_eq_iff)
  have b: "importKey_verify ec_platform second_key \<noteq>
      importKey_verify ec_platform (card_publicKey ec_card)"
    by (simp add: ec_keys)
  have c: "verifyProfileCard ec_platform
      (encodeCard ec_platform (ec_card\<lparr>card_publicKey := second_key\<rparr>)) = Inr sample_profile"
    using signed_card_payload[OF decoded_ec_card(2), of "[5, 16]" "[7, 18]"] ec_verifies(2)
    by (simp add: ec_keys(3) ec_card_parts ec_sel(8) ec_payload)
  from created_ec_card verified_ec_card a b c show ?thesis
    by simp
qed

section \<open>Password recovery\<close>

lemma verifyLoop_iff:
  "length ans = length qs \<Longrightarrow>
     verifyLoop P ans qs i \<longleftrightarrow>
       (\<forall>j. i \<le> j \<and> j < length ans \<longrightarrow> hashText P (ans ! j) = answerHash (qs ! j))"
proof (induction P ans qs i rule: verifyLoop.induct)
  case (1 P ans qs i)
  show ?case
  proof (cases "i < length ans")
    case False
    then show ?thesis by (auto simp: verifyLoop.simps[of P ans qs i])
  next
    case True
    show ?thesis
    proof (cases "hashText P (ans ! i) = answerHash (qs ! i)")
      case False
      with True show ?thesis
        by (auto simp: verifyLoop.simps[of P ans qs i])
    next
      case eq: True
      have "verifyLoop P ans qs i = verifyLoop P ans qs (i + 1)"
        using True eq by (simp add: verifyLoop.simps[of P ans qs i])
      also have "\<dots> \<longleftrightarrow>
          (\<forall>j. i + 1 \<le> j \<and> j < length ans \<longrightarrow> hashText P (ans ! j) = answerHash (qs ! j))"
        using "1.IH"[OF True refl _ "1.prems"] eq by simp
      also have "\<dots> \<longleftrightarrow>
          (\<forall>j. i \<le> j \<and> j < length ans \<longrightarrow> hashText P (ans ! j) = answerHash (qs ! j))"
      proof -
        have "i \<le> j \<longleftrightarrow> j = i \<or> i + 1 \<le> j" for j
          by arith
        then show ?thesis
          using eq by auto
      qed
      finally show ?thesis .
    qed
  qed
qed

lemma verifyLoop_allAnswersMatch:
  assumes "length (answers st) = length (questionData acct)"
  shows "verifyLoop P (answers st) (questionData acct) 0 = allAnswersMatch P acct st"
proof -
  have "allAnswersMatch P acct st \<longleftrightarrow>
      (\<forall>j < length (answers st). hashText P (answers st ! j) = answerHash (questionData acct ! j))"
    unfolding allAnswersMatch_def list_all2_conv_all_nth using assms by blast
  then show ?thesis
    unfolding verifyLoop_iff[OF assms] by simp
qed

lemma verifyAnswers_passed:
  "step (fst (verifyAnswers P acct st)) = 2 \<Longrightarrow> step st \<noteq> 2 \<Longrightarrow> allAnswersMatch P acct st"
  unfolding verifyAnswers_def
  by (cases "length (answers st) = length (questionData acct)")
     (auto simp: verifyLoop_allAnswersMatch split: if_splits)

lemma verifyAnswers_failed:
  assumes "length (answers st) = length (questionData acct)"
    and "i < length (questionData acct)"
    and "hashText P (answers st ! i) \<noteq> answerHash (questionData acct ! i)"
  shows "verifyAnswers P acct st = (st, [answers_incorrect])"
proof -
  have "\<not> allAnswersMatch P acct st"
    unfolding allAnswersMatch_def list_all2_conv_all_nth using assms by metis
  then have "\<not> verifyLoop P (answers st) (questionData acct) 0"
    using verifyLoop_allAnswersMatch[OF assms(1)] by blast
  then show ?thesis
    unfolding verifyAnswers_def using assms(1) by simp
qed

lemma reset_only_after_verify:
  assumes "step (fst (recoveryEvent P acct st ev)) = 2" and "step st \<noteq> 2"
  shows "ev = ClickVerify \<and> step st = 1 \<and> questionData acct \<noteq> [] \<and> allAnswersMatch P acct st"
proof -
  have conf: "acc_securityQuestions acct \<noteq> None" "questionData acct \<noteq> []"
    using assms by (auto simp: recoveryEvent_def split: if_splits RecoveryEvent.splits)
  have one: "step st = 1"
    using assms conf
    by (auto simp: recoveryEvent_def split: if_splits RecoveryEvent.splits)
  have ev: "ev = ClickVerify"
    using assms conf one
    by (cases ev) (auto simp: recoveryEvent_def handleAnswerChange_def Let_def split: if_splits)
  have "fst (recoveryEvent P acct st ClickVerify) = fst (verifyAnswers P acct st)"
    using conf one by (auto simp: recoveryEvent_def split: prod.splits)
  then have "allAnswersMatch P acct st"
    using assms ev by (auto intro: verifyAnswers_passed)
  with conf one ev show ?thesis by simp
qed

lemma runRecovery_append:
  "runRecovery P acct st (evs @ evs') = runRecovery P acct (runRecovery P acct st evs) evs'"
  by (induction evs arbitrary: st) auto

lemma reset_reached:
  assumes "step (runRecovery P acct st evs) = 2" and "step st \<noteq> 2"
  shows "\<exists>evs1 evs2. evs = evs1 @ ClickVerify # evs2 \<and>
           step (runRecovery P acct st evs1) = 1 \<and>
           allAnswersMatch P acct (runRecovery P acct st evs1)"
  using assms
proof (induction evs rule: rev_induct)
  case Nil
  then show ?case by simp
next
  case (snoc ev evs)
  let ?s = "runRecovery P acct st evs"
  show ?case
  proof (cases "step ?s = 2")
    case True
    from snoc.IH[OF True snoc.prems(2)] obtain evs1 evs2 where
      "evs = evs1 @ ClickVerify # evs2" "step (runRecovery P acct st evs1) = 1"
      "allAnswersMatch P acct (runRecovery P acct st evs1)"
      by blast
    then have "evs @ [ev] = evs1 @ ClickVerify # (evs2 @ [ev])"
      by simp
    with \<open>step (runRecovery P acct st evs1) = 1\<close>
      \<open>allAnswersMatch P acct (runRecovery P acct st evs1)\<close>
    show ?thesis by blast
  next
    case False
    have "step (fst (recoveryEvent P acct ?s ev)) = 2"
      using snoc.prems(1) by (simp add: runRecovery_append)
    from reset_only_after_verify[OF this False]
    have "ev = ClickVerify" "step ?s = 1" "allAnswersMatch P acct ?s"
      by simp_all
    then have "evs @ [ev] = evs @ ClickVerify # []" by simp
    with \<open>step ?s = 1\<close> \<open>allAnswersMatch P acct ?s\<close> show ?thesis by blast
  qed
qed

lemma answers_verifyAnswers: "answers (fst (verifyAnswers P acct st)) = answers st"
  by (simp add: verifyAnswers_def)

lemma length_handleAnswerChange:
  "i < length (answers st) \<Longrightarrow> length (answers (handleAnswerChange st i v)) = length (answers st)"
  by (simp add: handleAnswerChange_def)

lemma length_answers_event:
  assumes "length (answers st) = length (questionData acct)"
  shows "length (answers (fst (recoveryEvent P acct st ev))) = length (questionData acct)"
proof (cases ev)
  case (ChangeAnswer i v)
  then show ?thesis
    using assms by (simp add: recoveryEvent_def length_handleAnswerChange)
next
  case ClickVerify
  then show ?thesis
    using assms by (simp add: recoveryEvent_def answers_verifyAnswers split: prod.splits)
      (metis answers_verifyAnswers fst_conv)
qed (use assms in \<open>simp_all add: recoveryEvent_def\<close>)

lemma answers_length_invariant:
  "length (answers st) = length (questionData acct) \<Longrightarrow>
     length (answers (runRecovery P acct st evs)) = length (questionData acct)"
  by (induction evs arbitrary: st) (simp_all add: length_answers_event)

lemma verifyAnswers_eq:
  "length (answers st) = length (questionData acct) \<Longrightarrow>
     verifyAnswers P acct st =
       (if allAnswersMatch P acct st then (st\<lparr>step := 2\<rparr>, []) else (st, [answers_incorrect]))"
  by (simp add: verifyAnswers_def verifyLoop_allAnswersMatch)

text \<open>
  Claim C6. In the recovery component the step becomes 2 (Reset) by one transition only:
  the button that verifies, pressed at step 1 (Questions) with security questions
  configured, when the hash of every submitted answer equals the stored
  \<^verbatim>\<open>answerHash\<close> of its question. Hence whatever the user does from the first render,
  a state at step 2 comes after such a successful verification. When the hash of any
  one answer differs, the verification changes nothing, the step stays 1, and the one
  message shown is the same whichever answer was wrong. The array of answers always
  has the length of the configured questions.
\<close>

theorem recovery_sequencing:
  "(step (fst (recoveryEvent P acct st ev)) = 2 \<and> step st \<noteq> 2 \<longrightarrow>
      ev = ClickVerify \<and> step st = 1 \<and> questionData acct \<noteq> [] \<and> allAnswersMatch P acct st) \<and>
   (step (runRecovery P acct (initialRecovery acct) evs) = 2 \<longrightarrow>
      (\<exists>evs1 evs2. evs = evs1 @ ClickVerify # evs2 \<and>
         step (runRecovery P acct (initialRecovery acct) evs1) = 1 \<and>
         allAnswersMatch P acct (runRecovery P acct (initialRecovery acct) evs1))) \<and>
   (\<forall>i. step st = 1 \<and> questionData acct \<noteq> [] \<and>
        length (answers st) = length (questionData acct) \<and> i < length (questionData acct) \<and>
        hashText P (answers st ! i) \<noteq> answerHash (questionData acct ! i) \<longrightarrow>
      recoveryEvent P acct st ClickVerify = (st, [answers_incorrect], None)) \<and>
   length (answers (runRecovery P acct (initialRecovery acct) evs)) = length (questionData acct) \<and>
   (allAnswersMatch P acct st \<longleftrightarrow>
      length (answers st) = length (questionData acct) \<and>
      (\<forall>i < length (questionData acct).
         hashText P (answers st ! i) = answerHash (questionData acct ! i)))"
proof (intro conjI allI impI)
  assume "step (fst (recoveryEvent P acct st ev)) = 2 \<and> step st \<noteq> 2"
  then have *: "ev = ClickVerify \<and> step st = 1 \<and> questionData acct \<noteq> [] \<and> allAnswersMatch P acct st"
    using reset_only_after_verify by blast
  from * show "ev = ClickVerify" by simp
  from * show "step st = 1" by simp
  from * show "questionData acct \<noteq> []" by simp
  from * show "allAnswersMatch P acct st" by simp
next
  assume "step (runRecovery P acct (initialRecovery acct) evs) = 2"
  moreover have "step (initialRecovery acct) \<noteq> 2"
    by (simp add: initialRecovery_def)
  ultimately show "\<exists>evs1 evs2. evs = evs1 @ ClickVerify # evs2 \<and>
         step (runRecovery P acct (initialRecovery acct) evs1) = 1 \<and>
         allAnswersMatch P acct (runRecovery P acct (initialRecovery acct) evs1)"
    by (rule reset_reached)
next
  fix i
  assume a: "step st = 1 \<and> questionData acct \<noteq> [] \<and>
        length (answers st) = length (questionData acct) \<and> i < length (questionData acct) \<and>
        hashText P (answers st ! i) \<noteq> answerHash (questionData acct ! i)"
  then have "verifyAnswers P acct st = (st, [answers_incorrect])"
    by (intro verifyAnswers_failed[of st acct i]) simp_all
  moreover have "acc_securityQuestions acct \<noteq> None"
    using a by (cases "acc_securityQuestions acct") (simp_all add: questionData_def)
  ultimately show "recoveryEvent P acct st ClickVerify = (st, [answers_incorrect], None)"
    using a by (simp add: recoveryEvent_def)
next
  show "length (answers (runRecovery P acct (initialRecovery acct) evs)) = length (questionData acct)"
    by (rule answers_length_invariant) (simp add: initialRecovery_def)
next
  show "allAnswersMatch P acct st \<longleftrightarrow>
      length (answers st) = length (questionData acct) \<and>
      (\<forall>i < length (questionData acct).
         hashText P (answers st ! i) = answerHash (questionData acct ! i))"
    unfolding allAnswersMatch_def list_all2_conv_all_nth by metis
qed

lemma ref_hashText: "hashText ref_platform s = toLowerCase (trim s)"
  by (simp add: hashText_def ref_sel arrayBufferToBase64_def foldl_snoc_map comp_def
      fromCharCode_charCodeAt)

lemma sample_questions:
  "questionData sample_account =
     [\<lparr>question = ''pet?'', answerHash = ''rex''\<rparr>, \<lparr>question = ''city?'', answerHash = ''paris''\<rparr>]"
  "acc_securityQuestions sample_account \<noteq> None"
  by (simp_all add: questionData_def sample_account_def)

theorem recovery_sequencing_witness:
  "allAnswersMatch ref_platform sample_account
     \<lparr>step = 1, answers = [''Rex'', ''  paris  ''], newPassword = [], confirmPassword = []\<rparr> \<and>
   recoveryEvent ref_platform sample_account
     \<lparr>step = 1, answers = [''Rex'', ''London''], newPassword = [], confirmPassword = []\<rparr>
     ClickVerify =
     (\<lparr>step = 1, answers = [''Rex'', ''London''], newPassword = [], confirmPassword = []\<rparr>,
      [answers_incorrect], None) \<and>
   runRecovery ref_platform sample_account (initialRecovery sample_account)
     [ClickStillForgotten, ChangeAnswer 0 ''Rex'', ChangeAnswer 1 ''  paris  ''] =
     \<lparr>step = 1, answers = [''Rex'', ''  paris  ''], newPassword = [], confirmPassword = []\<rparr>"
proof -
  let ?good = "\<lparr>step = 1, answers = [''Rex'', ''  paris  ''], newPassword = [], confirmPassword = []\<rparr>"
  let ?bad = "\<lparr>step = 1, answers = [''Rex'', ''London''], newPassword = [], confirmPassword = []\<rparr>"
  note T = recovery_sequencing[of ref_platform sample_account]
  have m: "allAnswersMatch ref_platform sample_account ?good"
    by (simp add: allAnswersMatch_def sample_questions ref_hashText sample_normalised)
  have "step (fst (recoveryEvent ref_platform sample_account ?good ClickVerify)) = 2 \<and> step ?good \<noteq> 2"
    using m by (simp add: recoveryEvent_def sample_questions verifyAnswers_eq)
  from conjunct1[OF T[of ?good ClickVerify], rule_format, OF this]
  have a: "allAnswersMatch ref_platform sample_account ?good"
    by simp
  have "step ?bad = 1 \<and> questionData sample_account \<noteq> [] \<and>
        length (answers ?bad) = length (questionData sample_account) \<and>
        1 < length (questionData sample_account) \<and>
        hashText ref_platform (answers ?bad ! 1) \<noteq> answerHash (questionData sample_account ! 1)"
    by (simp add: sample_questions ref_hashText sample_normalised)
  from conjunct1[OF conjunct2[OF conjunct2[OF T[of ?bad]]], rule_format, OF this]
  have b: "recoveryEvent ref_platform sample_account ?bad ClickVerify = (?bad, [answers_incorrect], None)" .
  have c: "runRecovery ref_platform sample_account (initialRecovery sample_account)
     [ClickStillForgotten, ChangeAnswer 0 ''Rex'', ChangeAnswer 1 ''  paris  ''] = ?good"
    by (simp add: recoveryEvent_def initialRecovery_def sample_questions handleAnswerChange_def)
  from a b c show ?thesis
    by (intro conjI)
qed

section \<open>Loading a bundle\<close>

lemma spread_override: "(m ++ n(k := x))(k := v) = (m ++ n)(k := v)"
  by (rule ext) (simp add: map_add_def)

text \<open>
  Claim C10. \<^verbatim>\<open>loadDataBundle\<close> sets \<^verbatim>\<open>storage.quickAccessVault\<close> of the session's
  settings to the value that the settings of this device held before the load,
  whatever the bundle carries in that field: two bundles that differ in it only load
  to the same state. The entry \<^verbatim>\<open>weaver_quick_access_vault\<close> of \<^verbatim>\<open>localStorage\<close> is
  not touched, so loading alone neither installs, nor removes, nor changes the cache.
\<close>

theorem quick_access_vault_preserved:
  "storage (settings (loadDataBundle P st bundle password)) ''quickAccessVault'' =
     storage (settings st) ''quickAccessVault'' \<and>
   localStorage (loadDataBundle P st bundle password) ''weaver_quick_access_vault'' =
     localStorage st ''weaver_quick_access_vault'' \<and>
   loadDataBundle P st
     (bundle\<lparr>bundle_settings := (bundle_settings bundle)
        \<lparr>storage := (storage (bundle_settings bundle))(''quickAccessVault'' := carried)\<rparr>\<rparr>)
     password =
     loadDataBundle P st bundle password"
  by (simp add: loadDataBundle_def Let_def spread_override)

lemma sample_carried:
  "storage (bundle_settings (sample_bundle v)) ''quickAccessVault'' = Some (JStr ''carried'')"
  "storage (settings loggedOut) ''quickAccessVault'' = Some JNull"
  by (simp_all add: sample_bundle_def loggedOut_def initialSettings_def initial_storage_def
      object_def)

theorem quick_access_vault_preserved_witness:
  "storage (bundle_settings (sample_bundle (Some 7))) ''quickAccessVault'' =
     Some (JStr ''carried'') \<and>
   storage (settings (loadDataBundle ref_platform loggedOut (sample_bundle (Some 7)) ''pw''))
     ''quickAccessVault'' = Some JNull \<and>
   localStorage (loadDataBundle ref_platform loggedOut (sample_bundle (Some 7)) ''pw'')
     ''weaver_quick_access_vault'' = None"
  using quick_access_vault_preserved[of ref_platform loggedOut "sample_bundle (Some 7)" "''pw''"]
  by (simp add: sample_carried) (simp add: loggedOut_def)

section \<open>The version gate\<close>

lemma decryptAndLoad_current:
  assumes "decryptFromFile P vaultBuffer password = Inr bundle" and "\<not> isOldVersion bundle"
  shows "decryptAndLoad P st vaultBuffer password =
     (let st2 = loadDataBundle P
                  (st\<lparr>isLoading := True, loadingMessage := unlocking_vault, error := None,
                      isLegacyMode := False\<rparr>) bundle password;
          st3 = (if \<not> truthy (storage (settings st) ''quickAccessVault'')
                 then st2\<lparr>timeouts := timeouts st2 @ [QuickAccessModal vaultBuffer]\<rparr>
                 else st2)
      in st3\<lparr>isLoading := False\<rparr>)"
  using assms by (simp add: decryptAndLoad_def Let_def)

lemma decryptAndLoad_old:
  assumes "decryptFromFile P vaultBuffer password = Inr bundle" and "isOldVersion bundle"
  shows "decryptAndLoad P st vaultBuffer password =
     st\<lparr>isLoading := True, loadingMessage := unlocking_vault, error := None,
        modalContent := Some (LegacyVersionModal bundle password)\<rparr>"
  using assms by (simp add: decryptAndLoad_def Let_def)

lemma isOldVersion_iff:
  "isOldVersion bundle \<longleftrightarrow>
     bundle_version bundle = None \<or> (\<exists>v. bundle_version bundle = Some v \<and> v < DATA_VERSION)"
  by (auto simp: isOldVersion_def DATA_VERSION_def split: option.splits)

lemma newer_not_old: "bundle_version bundle = Some v \<Longrightarrow> DATA_VERSION \<le> v \<Longrightarrow> \<not> isOldVersion bundle"
  by (simp add: isOldVersion_def DATA_VERSION_def)

lemma loadDataBundle_version:
  "loadDataBundle P st (bundle\<lparr>bundle_version := w\<rparr>) password =
     loadDataBundle P st bundle password"
  by (simp add: loadDataBundle_def Let_def)

text \<open>
  Claim C3, as the code has it. \<^verbatim>\<open>decryptAndLoad\<close> has no test for a version above
  \<^verbatim>\<open>DATA_VERSION\<close>: a bundle that decrypts and whose version is greater than 7 is loaded
  in full. The session takes its stories, presets, universes and settings, the password
  becomes the session password, the view becomes the home view, compatibility mode is
  off, no error is set and no confirmation is asked. The state that results is the
  state that results from a file with the same bundle at version 7, but for the bytes
  of the file, which the dialog that offers quick access is scheduled with. A bundle
  is a value of its declared type, settings included.
\<close>

theorem newer_version_loaded:
  assumes "decryptFromFile P vaultBuffer password = Inr bundle"
    and "bundle_version bundle = Some v" and "DATA_VERSION < v"
  shows "view (decryptAndLoad P st vaultBuffer password) = Home \<and>
         stories (decryptAndLoad P st vaultBuffer password) = orEmpty (bundle_stories bundle) \<and>
         presets (decryptAndLoad P st vaultBuffer password) = orEmpty (bundle_presets bundle) \<and>
         universes (decryptAndLoad P st vaultBuffer password) = orEmpty (bundle_universes bundle) \<and>
         settings (decryptAndLoad P st vaultBuffer password) =
           settings (loadDataBundle P st bundle password) \<and>
         sessionPassword (decryptAndLoad P st vaultBuffer password) = Some password \<and>
         isLegacyMode (decryptAndLoad P st vaultBuffer password) = False \<and>
         isGuest (decryptAndLoad P st vaultBuffer password) = False \<and>
         error (decryptAndLoad P st vaultBuffer password) = None \<and>
         modalContent (decryptAndLoad P st vaultBuffer password) = modalContent st \<and>
         loadDataBundle P st (bundle\<lparr>bundle_version := Some DATA_VERSION\<rparr>) password =
           loadDataBundle P st bundle password \<and>
         (\<forall>buffer7.
            decryptFromFile P buffer7 password =
              Inr (bundle\<lparr>bundle_version := Some DATA_VERSION\<rparr>) \<longrightarrow>
            decryptAndLoad P st vaultBuffer password =
              (decryptAndLoad P st buffer7 password)
                \<lparr>timeouts := timeouts (decryptAndLoad P st vaultBuffer password)\<rparr>)"
proof -
  have new: "\<not> isOldVersion bundle"
    using assms(3) by (intro newer_not_old[OF assms(2)]) simp
  have seven: "\<not> isOldVersion (bundle\<lparr>bundle_version := Some DATA_VERSION\<rparr>)"
    by (rule newer_not_old[of _ DATA_VERSION]) simp_all
  have fields: "view (decryptAndLoad P st vaultBuffer password) = Home \<and>
         stories (decryptAndLoad P st vaultBuffer password) = orEmpty (bundle_stories bundle) \<and>
         presets (decryptAndLoad P st vaultBuffer password) = orEmpty (bundle_presets bundle) \<and>
         universes (decryptAndLoad P st vaultBuffer password) = orEmpty (bundle_universes bundle) \<and>
         settings (decryptAndLoad P st vaultBuffer password) =
           settings (loadDataBundle P st bundle password) \<and>
         sessionPassword (decryptAndLoad P st vaultBuffer password) = Some password \<and>
         isLegacyMode (decryptAndLoad P st vaultBuffer password) = False \<and>
         isGuest (decryptAndLoad P st vaultBuffer password) = False \<and>
         error (decryptAndLoad P st vaultBuffer password) = None \<and>
         modalContent (decryptAndLoad P st vaultBuffer password) = modalContent st"
    unfolding decryptAndLoad_current[OF assms(1) new]
    by (simp add: loadDataBundle_def Let_def)
  have same: "decryptAndLoad P st vaultBuffer password =
      (decryptAndLoad P st buffer7 password)
        \<lparr>timeouts := timeouts (decryptAndLoad P st vaultBuffer password)\<rparr>"
    if "decryptFromFile P buffer7 password = Inr (bundle\<lparr>bundle_version := Some DATA_VERSION\<rparr>)"
    for buffer7
    unfolding decryptAndLoad_current[OF assms(1) new] decryptAndLoad_current[OF that seven]
      loadDataBundle_version
    by (simp add: Let_def)
  from fields same show ?thesis
    by (simp add: loadDataBundle_version)
qed

lemma ref_json_sample:
  "parse_bundle ref_platform (stringify_bundle ref_platform (sample_bundle (Some 5))) =
     Some (sample_bundle (Some 5))"
  "parse_bundle ref_platform (stringify_bundle ref_platform (sample_bundle (Some 8))) =
     Some (sample_bundle (Some 8))"
  by (simp_all add: ref_sel ref_stringify_bundle_def ref_parse_bundle_def sample_bundle_def)

lemma opened_sample:
  "decryptFromFile ref_platform
     (fst (encryptForFile ref_platform sample_rng (sample_bundle (Some 5)) ''pw'')) ''pw'' =
     Inr (sample_bundle (Some 5))"
  "decryptFromFile ref_platform
     (fst (encryptForFile ref_platform sample_rng (sample_bundle (Some 8)) ''pw'')) ''pw'' =
     Inr (sample_bundle (Some 8))"
  "decryptFromFile ref_platform
     (fst (encryptForFile ref_platform sample_rng (sample_bundle (Some 7)) ''pw'')) ''pw'' =
     Inr (sample_bundle (Some 7))"
  using decrypt_sealed[OF ref_aead_correct ref_text_codec, of sample_rng _ "''pw''"]
  by (simp_all add: ref_json_sample ref_json_current)

theorem newer_version_loaded_witness:
  "view (decryptAndLoad ref_platform loggedOut
     (fst (encryptForFile ref_platform sample_rng (sample_bundle (Some 8)) ''pw'')) ''pw'') = Home \<and>
   sessionPassword (decryptAndLoad ref_platform loggedOut
     (fst (encryptForFile ref_platform sample_rng (sample_bundle (Some 8)) ''pw'')) ''pw'') =
     Some ''pw'' \<and>
   decryptAndLoad ref_platform loggedOut
     (fst (encryptForFile ref_platform sample_rng (sample_bundle (Some 8)) ''pw'')) ''pw'' =
   (decryptAndLoad ref_platform loggedOut
     (fst (encryptForFile ref_platform sample_rng (sample_bundle (Some 7)) ''pw'')) ''pw'')
     \<lparr>timeouts := timeouts (decryptAndLoad ref_platform loggedOut
        (fst (encryptForFile ref_platform sample_rng (sample_bundle (Some 8)) ''pw'')) ''pw'')\<rparr>"
proof -
  have a: "bundle_version (sample_bundle (Some 8)) = Some 8"
    by (simp add: sample_bundle_def)
  have b: "DATA_VERSION < 8"
    by (simp add: DATA_VERSION_def)
  have c: "decryptFromFile ref_platform
      (fst (encryptForFile ref_platform sample_rng (sample_bundle (Some 7)) ''pw'')) ''pw'' =
      Inr ((sample_bundle (Some 8))\<lparr>bundle_version := Some DATA_VERSION\<rparr>)"
    using opened_sample(3) by (simp add: sample_bundle_def DATA_VERSION_def)
  note T = newer_version_loaded[OF opened_sample(2) a b, of loggedOut]
  have d: "decryptAndLoad ref_platform loggedOut
     (fst (encryptForFile ref_platform sample_rng (sample_bundle (Some 8)) ''pw'')) ''pw'' =
   (decryptAndLoad ref_platform loggedOut
     (fst (encryptForFile ref_platform sample_rng (sample_bundle (Some 7)) ''pw'')) ''pw'')
     \<lparr>timeouts := timeouts (decryptAndLoad ref_platform loggedOut
        (fst (encryptForFile ref_platform sample_rng (sample_bundle (Some 8)) ''pw'')) ''pw'')\<rparr>"
    using T c by blast
  from T d show ?thesis
    by (intro conjI) (elim conjE, assumption)+
qed

text \<open>
  A bundle of version 8 is not rejected: from the logged-out state, opening its file with
  the right password ends in the home view with the stories of the bundle in the session,
  the password kept, no error and no compatibility mode.
\<close>

theorem forward_version_not_rejected:
  "DATA_VERSION < 8 \<and>
   bundle_version (sample_bundle (Some 8)) = Some 8 \<and>
   view (decryptAndLoad ref_platform loggedOut
     (fst (encryptForFile ref_platform sample_rng (sample_bundle (Some 8)) ''pw'')) ''pw'') = Home \<and>
   stories (decryptAndLoad ref_platform loggedOut
     (fst (encryptForFile ref_platform sample_rng (sample_bundle (Some 8)) ''pw'')) ''pw'') =
     [JStr ''a story''] \<and>
   sessionPassword (decryptAndLoad ref_platform loggedOut
     (fst (encryptForFile ref_platform sample_rng (sample_bundle (Some 8)) ''pw'')) ''pw'') =
     Some ''pw'' \<and>
   error (decryptAndLoad ref_platform loggedOut
     (fst (encryptForFile ref_platform sample_rng (sample_bundle (Some 8)) ''pw'')) ''pw'') = None \<and>
   isLegacyMode (decryptAndLoad ref_platform loggedOut
     (fst (encryptForFile ref_platform sample_rng (sample_bundle (Some 8)) ''pw'')) ''pw'') = False"
proof -
  have "\<not> isOldVersion (sample_bundle (Some 8))"
    by (simp add: isOldVersion_def sample_bundle_def DATA_VERSION_def)
  from decryptAndLoad_current[OF opened_sample(2) this, of loggedOut] show ?thesis
    by (simp add: loadDataBundle_def Let_def DATA_VERSION_def sample_bundle_def orEmpty_def)
qed

section \<open>Declining the compatibility mode\<close>

text \<open>
  Claim C9. When a bundle decrypts and its version is missing or below
  \<^verbatim>\<open>DATA_VERSION\<close> (\<open>isOldVersion\<close>), \<^verbatim>\<open>decryptAndLoad\<close> only opens the dialog; declining it (its first
  button, or closing it) leaves the stories, presets, universes, settings, session
  password, \<^verbatim>\<open>localStorage\<close> (the quick-access cache and its metadata), view, guest and
  compatibility flags as they were before the login was tried. The state after
  declining is the state before with the loading flag off, the loading message set,
  the error cleared and no dialog open. A state that was logged out is logged out.
\<close>

theorem legacy_decline_no_mutation:
  assumes "decryptFromFile P vaultBuffer password = Inr bundle"
    and "isOldVersion bundle" and "button \<noteq> SecondButton"
  shows "modalContent (decryptAndLoad P st vaultBuffer password) =
           Some (LegacyVersionModal bundle password) \<and>
         clickModal P (decryptAndLoad P st vaultBuffer password) button =
           st\<lparr>isLoading := False, loadingMessage := unlocking_vault, error := None,
              modalContent := None\<rparr> \<and>
         stories (clickModal P (decryptAndLoad P st vaultBuffer password) button) = stories st \<and>
         presets (clickModal P (decryptAndLoad P st vaultBuffer password) button) = presets st \<and>
         universes (clickModal P (decryptAndLoad P st vaultBuffer password) button) = universes st \<and>
         settings (clickModal P (decryptAndLoad P st vaultBuffer password) button) = settings st \<and>
         sessionPassword (clickModal P (decryptAndLoad P st vaultBuffer password) button) =
           sessionPassword st \<and>
         localStorage (clickModal P (decryptAndLoad P st vaultBuffer password) button) =
           localStorage st \<and>
         quickAccessMeta (clickModal P (decryptAndLoad P st vaultBuffer password) button) =
           quickAccessMeta st \<and>
         view (clickModal P (decryptAndLoad P st vaultBuffer password) button) = view st \<and>
         isGuest (clickModal P (decryptAndLoad P st vaultBuffer password) button) = isGuest st \<and>
         isLegacyMode (clickModal P (decryptAndLoad P st vaultBuffer password) button) =
           isLegacyMode st"
  unfolding decryptAndLoad_old[OF assms(1,2)]
  using assms(3) by (cases button) (simp_all add: clickModal_def legacyCancel_def)

theorem legacy_decline_no_mutation_witness:
  "clickModal ref_platform
     (decryptAndLoad ref_platform loggedOut
        (fst (encryptForFile ref_platform sample_rng (sample_bundle (Some 5)) ''pw'')) ''pw'')
     FirstButton =
   loggedOut\<lparr>isLoading := False, loadingMessage := unlocking_vault, error := None,
     modalContent := None\<rparr>"
proof -
  have a: "isOldVersion (sample_bundle (Some 5))"
    by (simp add: isOldVersion_def sample_bundle_def DATA_VERSION_def)
  have b: "FirstButton \<noteq> SecondButton"
    by simp
  from legacy_decline_no_mutation[OF opened_sample(1) a b, of loggedOut] show ?thesis
    by blast
qed

section \<open>Resetting the password\<close>












end
